theory Spec2Isabelle
  imports Main "HOL-Library.AList"
begin

section \<open>Asynchronous operations as state transformers that may throw\<close>

text \<open>
  Every \<^verbatim>\<open>async\<close> method of the backend is modelled as a function from the world it
  runs in to its outcome and the world it leaves behind. The outcome is a sum: \<open>Inl e\<close> is a
  rejected promise (a thrown error), \<open>Inr v\<close> a resolved one. The combinators below are the
  control structures the TypeScript uses: sequencing of \<^verbatim>\<open>await\<close>s, \<^verbatim>\<open>throw\<close>,
  \<^verbatim>\<open>try/catch\<close> and \<^verbatim>\<open>try/finally\<close>.
\<close>

datatype exn = StoreError | DbError | SyntaxError | TypeError | CallbackError string

type_synonym ('a, 's) io = "'s \<Rightarrow> (exn + 'a) \<times> 's"

definition ret :: "'a \<Rightarrow> ('a, 's) io" where
  "ret x = (\<lambda>w. (Inr x, w))"

definition throw :: "exn \<Rightarrow> ('a, 's) io" where
  "throw e = (\<lambda>w. (Inl e, w))"

definition bind_io :: "('a, 's) io \<Rightarrow> ('a \<Rightarrow> ('b, 's) io) \<Rightarrow> ('b, 's) io" where
  "bind_io m f = (\<lambda>w. case m w of (Inl e, w') \<Rightarrow> (Inl e, w') | (Inr x, w') \<Rightarrow> f x w')"

definition try_catch :: "('a, 's) io \<Rightarrow> (exn \<Rightarrow> ('a, 's) io) \<Rightarrow> ('a, 's) io" where
  "try_catch m h = (\<lambda>w. case m w of (Inl e, w') \<Rightarrow> h e w' | (Inr x, w') \<Rightarrow> (Inr x, w'))"

text \<open>
  \<^verbatim>\<open>try { return await m } finally { await fin }\<close>: the finaliser runs on the world the
  body left, whatever the body's outcome; the body's outcome is the result unless the
  finaliser itself throws.
\<close>

definition try_finally :: "('a, 's) io \<Rightarrow> (unit, 's) io \<Rightarrow> ('a, 's) io" where
  "try_finally m fin = (\<lambda>w. case m w of (r, w') \<Rightarrow>
     (case fin w' of (Inl e, w'') \<Rightarrow> (Inl e, w'') | (Inr u, w'') \<Rightarrow> (r, w'')))"

section \<open>The world: coordination store, relational store, clock\<close>

type_synonym key = string
type_synonym uuid = string

text \<open>
  \<^verbatim>\<open>UserStatus\<close>, \<^verbatim>\<open>SessionType\<close> and \<^verbatim>\<open>SessionStatus\<close> are enums of
  \<^verbatim>\<open>config/constants\<close>; the members are the ones the sources and the table's CHECK
  constraints name.
\<close>

datatype UserStatus = ONLINE | AWAY | IN_CALL | OFFLINE
datatype SessionType = VIDEO | AUDIO | TEXT
datatype SessionStatus = ACTIVE | ENDED | ABANDONED

text \<open>\<^verbatim>\<open>IUserPresence\<close> of presenceTracker.ts.\<close>

record IUserPresence =
  userId :: string
  status :: UserStatus
  socketId :: "string option"
  lastSeen :: nat

text \<open>
  A value stored under a key: a plain string, or the text \<^verbatim>\<open>JSON.stringify\<close> produced
  from a presence object.
\<close>

datatype rvalue = Raw string | PresenceJson IUserPresence

record entry =
  val :: rvalue
  expires_at :: "nat option"

text \<open>\<^verbatim>\<open>ISession\<close> of models/Session.ts, one row of the \<^verbatim>\<open>sessions\<close> table.\<close>

record ISession =
  sess_id :: uuid
  session_type :: SessionType
  user1_id :: uuid
  user2_id :: uuid
  sess_status :: SessionStatus
  started_at :: nat
  ended_at :: "nat option"
  created_at :: nat

text \<open>A channel of the bus is named by a string.\<close>

type_synonym channel = string

datatype message =
  OnlineMsg string UserStatus nat
  | OfflineMsg string nat

text \<open>
  The world. \<open>kv\<close> is the key space of the coordination store, \<open>now\<close> the clock in
  milliseconds (what \<^verbatim>\<open>Date.now()\<close> and SQL \<^verbatim>\<open>NOW()\<close> read), \<open>published\<close> the
  messages delivered to the bus, oldest first, \<open>subscribed\<close> the channels the subscriber
  connection listens on. \<open>redis_faults\<close> and \<open>db_faults\<close> are the
  environment: the head says whether the next command sent to that store fails
  (connection lost, timeout); an empty list means no further failure. A failed command
  has no effect on the store. The clock stands still during one operation and is moved
  between operations by \<open>advance\<close>. Both stores execute one command at a time, so
  operations of concurrent processes reach them in some order, one after the other.
\<close>

record world =
  kv :: "(key \<times> entry) list"
  redis_faults :: "bool list"
  published :: "(channel \<times> message) list"
  subscribed :: "channel list"
  sessions :: "ISession list"
  users :: "(uuid \<times> nat) list"
  db_faults :: "bool list"
  now :: nat
  online_users_gauge :: nat

definition advance :: "nat \<Rightarrow> world \<Rightarrow> world" where
  "advance d w = w\<lparr>now := now w + d\<rparr>"

subsection \<open>Commands of the coordination store\<close>

definition next_redis_fault :: "world \<Rightarrow> bool" where
  "next_redis_fault w = (case redis_faults w of [] \<Rightarrow> False | f # fs \<Rightarrow> f)"

definition served :: "world \<Rightarrow> world" where
  "served w = w\<lparr>redis_faults := tl (redis_faults w)\<rparr>"

definition live :: "nat \<Rightarrow> entry \<Rightarrow> bool" where
  "live t e = (case expires_at e of None \<Rightarrow> True | Some x \<Rightarrow> t < x)"

text \<open>What the store holds under a key at the present time: an expired entry is absent.\<close>

definition lookup :: "world \<Rightarrow> key \<Rightarrow> rvalue option" where
  "lookup w k = (case map_of (kv w) k of
       None \<Rightarrow> None
     | Some e \<Rightarrow> if live (now w) e then Some (val e) else None)"

text \<open>
  \<^verbatim>\<open>SET key value PX ttl NX\<close>: the reply is \<^verbatim>\<open>'OK'\<close> when the key was set and null when
  the key exists. A non-positive expiry is rejected by the store with an error.
\<close>

definition redis_set_px_nx :: "key \<Rightarrow> rvalue \<Rightarrow> int \<Rightarrow> (string option, world) io" where
  "redis_set_px_nx k v ttl = (\<lambda>w.
     if next_redis_fault w \<or> ttl \<le> 0 then (Inl StoreError, served w)
     else (case lookup w k of
         Some old \<Rightarrow> (Inr None, served w)
       | None \<Rightarrow> (Inr (Some ''OK''),
           served (w\<lparr>kv := AList.update k
             \<lparr>val = v, expires_at = Some (now w + nat ttl)\<rparr> (kv w)\<rparr>))))"

text \<open>\<^verbatim>\<open>SETEX key seconds value\<close>.\<close>

definition redis_setex :: "key \<Rightarrow> nat \<Rightarrow> rvalue \<Rightarrow> (unit, world) io" where
  "redis_setex k seconds v = (\<lambda>w.
     if next_redis_fault w \<or> seconds = 0 then (Inl StoreError, served w)
     else (Inr (),
       served (w\<lparr>kv := AList.update k
         \<lparr>val = v, expires_at = Some (now w + seconds * 1000)\<rparr> (kv w)\<rparr>)))"

definition redis_get :: "key \<Rightarrow> (rvalue option, world) io" where
  "redis_get k = (\<lambda>w.
     if next_redis_fault w then (Inl StoreError, served w)
     else (Inr (lookup w k), served w))"

text \<open>\<^verbatim>\<open>DEL key\<close>: the reply is the number of keys removed.\<close>

definition redis_del :: "key \<Rightarrow> (nat, world) io" where
  "redis_del k = (\<lambda>w.
     if next_redis_fault w then (Inl StoreError, served w)
     else (Inr (if lookup w k = None then 0 else 1),
       served (w\<lparr>kv := AList.delete k (kv w)\<rparr>)))"

definition redis_publish :: "channel \<Rightarrow> message \<Rightarrow> (unit, world) io" where
  "redis_publish ch msg = (\<lambda>w.
     if next_redis_fault w then (Inl StoreError, served w)
     else (Inr (), served (w\<lparr>published := published w @ [(ch, msg)]\<rparr>)))"

section \<open>RedisService: the distributed lock (config/redis.ts)\<close>

definition LOCK_MATCHING :: string where
  "LOCK_MATCHING = ''lock:matching:''"

definition USER_ONLINE :: string where
  "USER_ONLINE = ''user:online:''"

definition SOCKET_USER :: string where
  "SOCKET_USER = ''socket:user:''"

definition acquireLock :: "key \<Rightarrow> int \<Rightarrow> (bool, world) io" where
  "acquireLock k ttl =
     try_catch
       (bind_io (redis_set_px_nx k (Raw ''1'') ttl) (\<lambda>result. ret (result = Some ''OK'')))
       (\<lambda>error. ret False)"

definition releaseLock :: "key \<Rightarrow> (unit, world) io" where
  "releaseLock k =
     try_catch
       (bind_io (redis_del k) (\<lambda>n. ret ()))
       (\<lambda>error. ret ())"

text \<open>
  \<^verbatim>\<open>withLock\<close> returns the callback's value, or null when the lock was not acquired;
  null is \<open>None\<close> here and a value \<open>x\<close> of the callback is \<open>Some x\<close>.
\<close>

definition withLock :: "key \<Rightarrow> ('a, world) io \<Rightarrow> int \<Rightarrow> ('a option, world) io" where
  "withLock lockKey callback ttl =
     bind_io (acquireLock lockKey ttl) (\<lambda>acquired.
       if \<not> acquired then ret None
       else try_finally
              (bind_io callback (\<lambda>x. ret (Some x)))
              (releaseLock lockKey))"


section \<open>PresenceTracker (services/friends/presenceTracker.ts)\<close>

definition PRESENCE_TTL :: nat where
  "PRESENCE_TTL = 300"

definition HEARTBEAT_INTERVAL :: nat where
  "HEARTBEAT_INTERVAL = 60000"

text \<open>
  \<^verbatim>\<open>JSON.parse\<close> gives back the presence object that was serialised. The keys under
  \<^verbatim>\<open>user:online:\<close> are written by this class alone, always with the text of a presence
  object. What the untyped code does with the value of a different JSON text under such a
  key (a number, another object) has no counterpart among the values of
  \<open>IUserPresence\<close>; the model covers text that is no JSON, on which the parse throws, and
  takes any other plain text the same way.
\<close>

definition json_parse :: "rvalue \<Rightarrow> (IUserPresence, world) io" where
  "json_parse v = (case v of PresenceJson p \<Rightarrow> ret p | Raw s \<Rightarrow> throw SyntaxError)"

text \<open>\<^verbatim>\<open>RedisService.publish\<close>: an error of the store is logged and swallowed.\<close>

definition publish :: "channel \<Rightarrow> message \<Rightarrow> (unit, world) io" where
  "publish ch msg = try_catch (redis_publish ch msg) (\<lambda>error. ret ())"

text \<open>
  \<^verbatim>\<open>RedisService.subscribe\<close>: the SUBSCRIBE is sent on the subscriber connection and its
  error, if any, is handed to a callback that logs it; the handler is attached for the
  messages that arrive later, whose delivery is outside the model.
\<close>

definition subscribe :: "channel \<Rightarrow> (message \<Rightarrow> (unit, world) io) \<Rightarrow> (unit, world) io" where
  "subscribe ch callback = (\<lambda>w.
     if next_redis_fault w then (Inr (), served w)
     else (Inr (), served (w\<lparr>subscribed := subscribed w @ [ch]\<rparr>)))"

text \<open>
  presenceTracker.ts imports \<^verbatim>\<open>REDIS_CHANNELS\<close> from config/redis.ts, which exports no
  such name: the binding is undefined, and reading \<^verbatim>\<open>REDIS_CHANNELS.USER_ONLINE\<close> or
  \<^verbatim>\<open>REDIS_CHANNELS.USER_OFFLINE\<close> throws. The read is the first argument of the call
  it stands in, so it throws before that call is made.
\<close>

definition REDIS_CHANNELS_USER_ONLINE :: "(channel, world) io" where
  "REDIS_CHANNELS_USER_ONLINE = throw TypeError"

definition REDIS_CHANNELS_USER_OFFLINE :: "(channel, world) io" where
  "REDIS_CHANNELS_USER_OFFLINE = throw TypeError"

subsection \<open>Collaborators: the users table and the metrics gauge\<close>

definition next_db_fault :: "world \<Rightarrow> bool" where
  "next_db_fault w = (case db_faults w of [] \<Rightarrow> False | f # fs \<Rightarrow> f)"

definition db_served :: "world \<Rightarrow> world" where
  "db_served w = w\<lparr>db_faults := tl (db_faults w)\<rparr>"

text \<open>\<^verbatim>\<open>UPDATE users SET last_seen = NOW(), updated_at = NOW() WHERE id = $1\<close>.\<close>

definition db_update_last_seen :: "uuid \<Rightarrow> (unit, world) io" where
  "db_update_last_seen uid = (\<lambda>w.
     if next_db_fault w then (Inl DbError, db_served w)
     else (Inr (), db_served
       (w\<lparr>users := map (\<lambda>(u, t). if u = uid then (u, now w) else (u, t)) (users w)\<rparr>)))"

definition updateLastSeen :: "uuid \<Rightarrow> (bool, world) io" where
  "updateLastSeen uid =
     try_catch (bind_io (db_update_last_seen uid) (\<lambda>u. ret True)) (\<lambda>error. ret False)"

definition updateOnlineUsers :: "nat \<Rightarrow> (unit, world) io" where
  "updateOnlineUsers n = (\<lambda>w. (Inr (), w\<lparr>online_users_gauge := n\<rparr>))"

subsection \<open>Reading presence\<close>

definition getUserPresence :: "string \<Rightarrow> (IUserPresence option, world) io" where
  "getUserPresence uid =
     try_catch
       (bind_io (redis_get (USER_ONLINE @ uid)) (\<lambda>data.
          case data of
            None \<Rightarrow> ret None
          | Some v \<Rightarrow>
              if v = Raw [] then ret None
              else bind_io (json_parse v) (\<lambda>p. ret (Some p))))
       (\<lambda>error. ret None)"

definition isUserOnline :: "string \<Rightarrow> (bool, world) io" where
  "isUserOnline uid =
     try_catch
       (bind_io (getUserPresence uid) (\<lambda>presence. ret (presence \<noteq> None)))
       (\<lambda>error. ret False)"

definition getUserBySocketId :: "string \<Rightarrow> (rvalue option, world) io" where
  "getUserBySocketId sock =
     try_catch (redis_get (SOCKET_USER @ sock)) (\<lambda>error. ret None)"

definition getUserStatus :: "string \<Rightarrow> (UserStatus, world) io" where
  "getUserStatus uid =
     try_catch
       (bind_io (getUserPresence uid) (\<lambda>presence.
          ret (case presence of Some p \<Rightarrow> status p | None \<Rightarrow> OFFLINE)))
       (\<lambda>error. ret OFFLINE)"

definition getUserSocketId :: "string \<Rightarrow> (string option, world) io" where
  "getUserSocketId uid =
     try_catch
       (bind_io (getUserPresence uid) (\<lambda>presence.
          ret (case presence of
                 Some p \<Rightarrow> (case socketId p of
                              Some s \<Rightarrow> if s = [] then None else Some s
                            | None \<Rightarrow> None)
               | None \<Rightarrow> None)))
       (\<lambda>error. ret None)"

subsection \<open>Counting the online users with SCAN\<close>

text \<open>
  \<^verbatim>\<open>SCAN cursor MATCH prefix* COUNT n\<close>: the iteration walks the live keys with the
  given prefix, \<open>n\<close> at a time; the cursor is the position reached and \<open>0\<close> once the walk
  is complete.
\<close>

definition matching_keys :: "string \<Rightarrow> world \<Rightarrow> key list" where
  "matching_keys p w =
     filter (\<lambda>k. take (length p) k = p \<and> lookup w k \<noteq> None) (map fst (kv w))"

definition redis_scan :: "nat \<Rightarrow> string \<Rightarrow> nat \<Rightarrow> (nat \<times> key list, world) io" where
  "redis_scan cursor p n = (\<lambda>w.
     if next_redis_fault w \<or> n = 0 then (Inl StoreError, served w)
     else (Inr (if length (matching_keys p w) \<le> cursor + n then 0 else cursor + n,
                take n (drop cursor (matching_keys p w))),
           served w))"


lemma lookup_served: "lookup (served w) k = lookup w k"
  by (simp add: served_def lookup_def split: option.splits)

lemma matching_keys_served: "matching_keys p (served w) = matching_keys p w"
  by (simp add: matching_keys_def lookup_served) (simp add: served_def)

text \<open>
  The \<^verbatim>\<open>do { ... } while (cursor !== '0')\<close> loop of \<^verbatim>\<open>getOnlineUsersCount\<close>, entered
  with the cursor and the count reached so far.
\<close>

function scan_count :: "nat \<Rightarrow> nat \<Rightarrow> (nat, world) io" where
  "scan_count cursor count w =
     (case redis_scan cursor USER_ONLINE 100 w of
        (Inl e, w') \<Rightarrow> (Inl e, w')
      | (Inr (newCursor, keys), w') \<Rightarrow>
          if newCursor \<noteq> 0 then scan_count newCursor (count + length keys) w'
          else (Inr (count + length keys), w'))"
  by pat_completeness auto
termination
proof (relation "measure (\<lambda>(cursor, count, w). length (matching_keys USER_ONLINE w) - cursor)")
  show "wf (measure (\<lambda>(cursor, count, w). length (matching_keys USER_ONLINE w) - cursor))"
    by simp
next
  fix cursor count :: nat and w w' :: world and x y newCursor keys
  assume "(x, w') = redis_scan cursor USER_ONLINE 100 w" "x = Inr y" "(newCursor, keys) = y"
    "newCursor \<noteq> 0"
  then have "newCursor = cursor + 100 \<and> cursor + 100 < length (matching_keys USER_ONLINE w)
      \<and> w' = served w"
    by (auto simp: redis_scan_def split: if_splits)
  then show "((newCursor, count + length keys, w'), (cursor, count, w))
      \<in> measure (\<lambda>(cursor, count, w). length (matching_keys USER_ONLINE w) - cursor)"
    by (simp add: matching_keys_served) arith
qed

declare scan_count.simps [simp del]

definition getOnlineUsersCount :: "(nat, world) io" where
  "getOnlineUsersCount = try_catch (scan_count 0 0) (\<lambda>error. ret 0)"

subsection \<open>Writing presence\<close>

definition setUserOnline :: "string \<Rightarrow> string \<Rightarrow> UserStatus \<Rightarrow> (bool, world) io" where
  "setUserOnline uid sock st =
     try_catch
       (\<lambda>w0.
          bind_io (redis_setex (USER_ONLINE @ uid) PRESENCE_TTL
                     (PresenceJson \<lparr>userId = uid, status = st, socketId = Some sock,
                                     lastSeen = now w0\<rparr>)) (\<lambda>u1.
          bind_io (redis_setex (SOCKET_USER @ sock) PRESENCE_TTL (Raw uid)) (\<lambda>u2.
          bind_io (updateLastSeen uid) (\<lambda>b.
          bind_io REDIS_CHANNELS_USER_ONLINE (\<lambda>ch.
          bind_io (\<lambda>w. publish ch (OnlineMsg uid st (now w)) w) (\<lambda>u3.
          bind_io getOnlineUsersCount (\<lambda>onlineCount.
          bind_io (updateOnlineUsers onlineCount) (\<lambda>u4.
          ret True))))))) w0)
       (\<lambda>error. ret False)"

definition setUserOffline :: "string \<Rightarrow> (bool, world) io" where
  "setUserOffline uid =
     try_catch
       (bind_io (getUserPresence uid) (\<lambda>presence.
        bind_io (redis_del (USER_ONLINE @ uid)) (\<lambda>n.
        bind_io (case presence of
                   None \<Rightarrow> ret ()
                 | Some p \<Rightarrow> (case socketId p of
                       None \<Rightarrow> ret ()
                     | Some s \<Rightarrow> if s = [] then ret ()
                                else bind_io (redis_del (SOCKET_USER @ s)) (\<lambda>n. ret ()))) (\<lambda>u1.
        bind_io (updateLastSeen uid) (\<lambda>b.
        bind_io REDIS_CHANNELS_USER_OFFLINE (\<lambda>ch.
        bind_io (\<lambda>w. publish ch (OfflineMsg uid (now w)) w) (\<lambda>u2.
        bind_io getOnlineUsersCount (\<lambda>onlineCount.
        bind_io (updateOnlineUsers onlineCount) (\<lambda>u3.
        ret True)))))))))
       (\<lambda>error. ret False)"

definition updateUserStatus :: "string \<Rightarrow> UserStatus \<Rightarrow> (bool, world) io" where
  "updateUserStatus uid st =
     try_catch
       (bind_io (getUserPresence uid) (\<lambda>presence.
          case presence of
            None \<Rightarrow> ret False
          | Some p \<Rightarrow> (\<lambda>w.
              bind_io (redis_setex (USER_ONLINE @ uid) PRESENCE_TTL
                         (PresenceJson (p\<lparr>status := st, lastSeen := now w\<rparr>)))
                (\<lambda>u. ret True) w)))
       (\<lambda>error. ret False)"

definition refreshPresence :: "string \<Rightarrow> (bool, world) io" where
  "refreshPresence uid =
     try_catch
       (bind_io (getUserPresence uid) (\<lambda>presence.
          case presence of
            None \<Rightarrow> ret False
          | Some p \<Rightarrow> (\<lambda>w.
              bind_io (redis_setex (USER_ONLINE @ uid) PRESENCE_TTL
                         (PresenceJson (p\<lparr>lastSeen := now w\<rparr>)))
                (\<lambda>u. ret True) w)))
       (\<lambda>error. ret False)"

definition setUserAway :: "string \<Rightarrow> (bool, world) io" where
  "setUserAway uid = try_catch (updateUserStatus uid AWAY) (\<lambda>error. ret False)"

definition setUserInCall :: "string \<Rightarrow> (bool, world) io" where
  "setUserInCall uid = try_catch (updateUserStatus uid IN_CALL) (\<lambda>error. ret False)"

text \<open>\<^verbatim>\<open>subscribeToPresenceEvents\<close> has no \<^verbatim>\<open>try\<close> around its two calls.\<close>

definition subscribeToPresenceEvents ::
    "(message \<Rightarrow> (unit, world) io) \<Rightarrow> (message \<Rightarrow> (unit, world) io) \<Rightarrow> (unit, world) io" where
  "subscribeToPresenceEvents onUserOnline onUserOffline =
     bind_io REDIS_CHANNELS_USER_ONLINE (\<lambda>ch1.
     bind_io (subscribe ch1 onUserOnline) (\<lambda>u1.
     bind_io REDIS_CHANNELS_USER_OFFLINE (\<lambda>ch2.
     bind_io (subscribe ch2 onUserOffline) (\<lambda>u2.
     ret ()))))"

subsection \<open>Listing the online users\<close>

text \<open>
  The \<^verbatim>\<open>for (const key of keys)\<close> loop of \<^verbatim>\<open>getOnlineUsers\<close>: each key is read back
  and, when it still has a value, parsed and pushed.
\<close>

fun fetch_users :: "key list \<Rightarrow> IUserPresence list \<Rightarrow> (IUserPresence list, world) io" where
  "fetch_users [] acc = ret acc"
| "fetch_users (k # ks) acc =
     bind_io (redis_get k) (\<lambda>data.
       case data of
         None \<Rightarrow> fetch_users ks acc
       | Some v \<Rightarrow>
           if v = Raw [] then fetch_users ks acc
           else bind_io (json_parse v) (\<lambda>p. fetch_users ks (acc @ [p])))"

lemma fetch_users_frame: "\<exists>r fs. fetch_users ks acc w = (r, w\<lparr>redis_faults := fs\<rparr>)"
proof (induction ks arbitrary: acc w)
  case Nil
  show ?case
    by (simp add: ret_def) (rule exI [of _ "redis_faults w"], simp)
next
  case (Cons k ks)
  have s: "\<And>fs. (served w)\<lparr>redis_faults := fs\<rparr> = w\<lparr>redis_faults := fs\<rparr>"
    by (simp add: served_def)
  have step: "\<And>acc'. \<exists>r fs. fetch_users ks acc' (served w) = (r, w\<lparr>redis_faults := fs\<rparr>)"
    using Cons.IH [of _ "served w"] by (simp add: s)
  have err: "\<exists>fs. served w = w\<lparr>redis_faults := fs\<rparr>"
    by (auto simp add: served_def)
  show ?case
  proof (cases "next_redis_fault w")
    case True
    with err show ?thesis
      by (simp add: bind_io_def redis_get_def)
  next
    case False
    show ?thesis
    proof (cases "lookup w k")
      case None
      with False step show ?thesis
        by (simp add: bind_io_def redis_get_def)
    next
      case (Some v)
      show ?thesis
      proof (cases v)
        case (Raw t)
        with False Some step err show ?thesis
          by (simp add: bind_io_def redis_get_def json_parse_def throw_def)
      next
        case (PresenceJson p)
        with False Some step show ?thesis
          by (simp add: bind_io_def redis_get_def json_parse_def ret_def)
      qed
    qed
  qed
qed

lemma lookup_faults: "lookup (w\<lparr>redis_faults := fs\<rparr>) k = lookup w k"
  by (simp add: lookup_def split: option.splits)

lemma matching_keys_faults:
  "matching_keys p (w\<lparr>redis_faults := fs\<rparr>) = matching_keys p w"
  by (simp add: matching_keys_def lookup_faults)

text \<open>The \<^verbatim>\<open>do { ... } while (cursor !== '0')\<close> loop of \<^verbatim>\<open>getOnlineUsers\<close>.\<close>

function scan_users :: "nat \<Rightarrow> IUserPresence list \<Rightarrow> (IUserPresence list, world) io" where
  "scan_users cursor acc w =
     (case redis_scan cursor USER_ONLINE 100 w of
        (Inl e, w') \<Rightarrow> (Inl e, w')
      | (Inr (newCursor, keys), w') \<Rightarrow>
          (case fetch_users keys acc w' of
             (Inl e, w'') \<Rightarrow> (Inl e, w'')
           | (Inr acc', w'') \<Rightarrow>
               if newCursor \<noteq> 0 then scan_users newCursor acc' w''
               else (Inr acc', w'')))"
  by pat_completeness auto
termination
proof (relation "measure (\<lambda>(cursor, acc, w). length (matching_keys USER_ONLINE w) - cursor)")
  show "wf (measure (\<lambda>(cursor, acc, w). length (matching_keys USER_ONLINE w) - cursor))"
    by simp
next
  fix cursor :: nat and acc acc' :: "IUserPresence list" and w w' w'' :: world
    and x y newCursor keys x'
  assume a: "(x, w') = redis_scan cursor USER_ONLINE 100 w" "x = Inr y"
    "(newCursor, keys) = y" "(x', w'') = fetch_users keys acc w'" "x' = Inr acc'"
    "newCursor \<noteq> 0"
  then have b: "newCursor = cursor + 100
      \<and> cursor + 100 < length (matching_keys USER_ONLINE w) \<and> w' = served w"
    by (auto simp: redis_scan_def split: if_splits)
  obtain r fs where "fetch_users keys acc w' = (r, w'\<lparr>redis_faults := fs\<rparr>)"
    using fetch_users_frame by blast
  with a(4) have "w'' = w'\<lparr>redis_faults := fs\<rparr>"
    by simp
  with b have "matching_keys USER_ONLINE w'' = matching_keys USER_ONLINE w"
    by (simp add: matching_keys_faults matching_keys_served)
  with b show "((newCursor, acc', w''), (cursor, acc, w))
      \<in> measure (\<lambda>(cursor, acc, w). length (matching_keys USER_ONLINE w) - cursor)"
    by simp arith
qed

declare scan_users.simps [simp del]

definition getOnlineUsers :: "(IUserPresence list, world) io" where
  "getOnlineUsers = try_catch (scan_users 0 []) (\<lambda>error. ret [])"

subsection \<open>Pipelined reads\<close>

text \<open>
  \<^verbatim>\<open>pipeline.exec()\<close> for a pipeline of GETs: one round trip, which fails as a whole or
  yields one \<^verbatim>\<open>[error, data]\<close> pair per key.
\<close>

definition pipeline_get_exec :: "key list \<Rightarrow> ((exn option \<times> rvalue option) list, world) io" where
  "pipeline_get_exec ks = (\<lambda>w.
     if next_redis_fault w then (Inl StoreError, served w)
     else (Inr (map (\<lambda>k. (None, lookup w k)) ks), served w))"

text \<open>
  The \<^verbatim>\<open>results.forEach\<close> of \<^verbatim>\<open>getMultiplePresence\<close>, over the user ids paired with
  their results; the \<^verbatim>\<open>Map\<close> is an association list.
\<close>

fun collect_presence ::
    "(string \<times> exn option \<times> rvalue option) list \<Rightarrow> (string \<times> IUserPresence) list
      \<Rightarrow> ((string \<times> IUserPresence) list, world) io" where
  "collect_presence [] presenceMap = ret presenceMap"
| "collect_presence ((uid, err, data) # rest) presenceMap =
     (case (err, data) of
        (None, Some v) \<Rightarrow>
          if v = Raw [] then collect_presence rest presenceMap
          else bind_io (json_parse v) (\<lambda>p.
                 collect_presence rest (AList.update uid p presenceMap))
      | other \<Rightarrow> collect_presence rest presenceMap)"

definition getMultiplePresence :: "string list \<Rightarrow> ((string \<times> IUserPresence) list, world) io" where
  "getMultiplePresence userIds =
     try_catch
       (bind_io (pipeline_get_exec (map (\<lambda>uid. USER_ONLINE @ uid) userIds)) (\<lambda>results.
          collect_presence (zip userIds results) []))
       (\<lambda>error. ret [])"

definition broadcastToFriends :: "string \<Rightarrow> string list \<Rightarrow> (unit, world) io" where
  "broadcastToFriends uid friendIds =
     try_catch
       (bind_io (getMultiplePresence friendIds) (\<lambda>presenceMap.
          if length (filter (\<lambda>friendId. map_of presenceMap friendId \<noteq> None) friendIds) = 0
          then ret ()
          else ret ()))
       (\<lambda>error. ret ())"

subsection \<open>Sweeping stale presence, statistics\<close>

text \<open>
  The loop of \<^verbatim>\<open>cleanupStalePresence\<close>; \<open>t\<close> is the \<^verbatim>\<open>Date.now()\<close> read before it.
\<close>

fun stale_loop :: "nat \<Rightarrow> IUserPresence list \<Rightarrow> nat \<Rightarrow> (nat, world) io" where
  "stale_loop t [] cleaned = ret cleaned"
| "stale_loop t (user # rest) cleaned =
     (if int t - int (lastSeen user) > int (PRESENCE_TTL * 1000 + 60000)
      then bind_io (setUserOffline (userId user)) (\<lambda>b. stale_loop t rest (cleaned + 1))
      else stale_loop t rest cleaned)"

definition cleanupStalePresence :: "(nat, world) io" where
  "cleanupStalePresence =
     try_catch
       (bind_io getOnlineUsers (\<lambda>users. (\<lambda>w. stale_loop (now w) users 0 w)))
       (\<lambda>error. ret 0)"

record presence_stats =
  total_online :: nat
  by_status_online :: nat
  by_status_in_call :: nat
  by_status_away :: nat
  timestamp :: nat

definition getPresenceStats :: "(presence_stats option, world) io" where
  "getPresenceStats =
     try_catch
       (bind_io getOnlineUsers (\<lambda>users. (\<lambda>w.
          (Inr (Some \<lparr>total_online = length users,
                       by_status_online = length (filter (\<lambda>u. status u = ONLINE) users),
                       by_status_in_call = length (filter (\<lambda>u. status u = IN_CALL) users),
                       by_status_away = length (filter (\<lambda>u. status u = AWAY) users),
                       timestamp = now w\<rparr>), w))))
       (\<lambda>error. ret None)"

section \<open>Session model (models/Session.ts) over the sessions table\<close>

subsection \<open>The sessions table (migration 003)\<close>

text \<open>
  The CHECK constraints of the table. \<^verbatim>\<open>sessions_type_check\<close> and
  \<^verbatim>\<open>sessions_status_check\<close> hold of every value of the two enum types.
\<close>

definition sessions_users_different :: "ISession \<Rightarrow> bool" where
  "sessions_users_different r = (user1_id r \<noteq> user2_id r)"

definition sessions_ended_after_started :: "ISession \<Rightarrow> bool" where
  "sessions_ended_after_started r =
     (case ended_at r of None \<Rightarrow> True | Some e \<Rightarrow> started_at r \<le> e)"

definition row_check :: "ISession \<Rightarrow> bool" where
  "row_check r = (sessions_users_different r \<and> sessions_ended_after_started r)"

text \<open>
  \<^verbatim>\<open>INSERT INTO sessions (...) VALUES ($1, $2, $3, $4, NOW(), NOW()) RETURNING *\<close>.
  \<open>new_id\<close> is the value \<^verbatim>\<open>uuid_generate_v4()\<close> yields for the primary key. The statement
  fails on a lost connection, a duplicate primary key, a user id that is not in the users
  table (the two foreign keys) and a violated CHECK constraint.
\<close>

definition db_insert_session ::
    "uuid \<Rightarrow> SessionType \<Rightarrow> uuid \<Rightarrow> uuid \<Rightarrow> SessionStatus \<Rightarrow> (ISession list, world) io" where
  "db_insert_session new_id ty u1 u2 st = (\<lambda>w.
     if next_db_fault w
        \<or> new_id \<in> set (map sess_id (sessions w))
        \<or> u1 \<notin> set (map fst (users w))
        \<or> u2 \<notin> set (map fst (users w))
        \<or> \<not> row_check \<lparr>sess_id = new_id, session_type = ty, user1_id = u1, user2_id = u2,
               sess_status = st, started_at = now w, ended_at = None, created_at = now w\<rparr>
     then (Inl DbError, db_served w)
     else (Inr [\<lparr>sess_id = new_id, session_type = ty, user1_id = u1, user2_id = u2,
                 sess_status = st, started_at = now w, ended_at = None, created_at = now w\<rparr>],
           db_served (w\<lparr>sessions := sessions w @
              [\<lparr>sess_id = new_id, session_type = ty, user1_id = u1, user2_id = u2,
                sess_status = st, started_at = now w, ended_at = None,
                created_at = now w\<rparr>]\<rparr>)))"

text \<open>
  \<^verbatim>\<open>UPDATE sessions SET ... WHERE ... RETURNING ...\<close>: the rows that satisfy the WHERE
  clause are rewritten and returned; the statement fails as a whole, changing nothing, on a
  lost connection or when a rewritten row violates a CHECK constraint.
\<close>

definition db_update_sessions ::
    "(ISession \<Rightarrow> bool) \<Rightarrow> (ISession \<Rightarrow> ISession) \<Rightarrow> (ISession list, world) io" where
  "db_update_sessions cond upd = (\<lambda>w.
     if next_db_fault w \<or> \<not> list_all row_check (map upd (filter cond (sessions w)))
     then (Inl DbError, db_served w)
     else (Inr (map upd (filter cond (sessions w))),
           db_served (w\<lparr>sessions := map (\<lambda>r. if cond r then upd r else r) (sessions w)\<rparr>)))"

subsection \<open>The operations\<close>

definition create :: "uuid \<Rightarrow> SessionType \<Rightarrow> uuid \<Rightarrow> uuid \<Rightarrow> (ISession option, world) io" where
  "create new_id sessionType user1Id user2Id =
     try_catch
       (bind_io (db_insert_session new_id sessionType user1Id user2Id ACTIVE) (\<lambda>rows.
          ret (case rows of [] \<Rightarrow> None | r # rs \<Rightarrow> Some r)))
       (\<lambda>error. ret None)"

definition endSession :: "uuid \<Rightarrow> SessionStatus \<Rightarrow> (bool, world) io" where
  "endSession sid st =
     try_catch
       (bind_io (\<lambda>w. db_update_sessions
                        (\<lambda>r. sess_id r = sid \<and> sess_status r = ACTIVE)
                        (\<lambda>r. r\<lparr>sess_status := st, ended_at := Some (now w)\<rparr>) w) (\<lambda>rows.
          if length rows = 0 then ret False else ret True))
       (\<lambda>error. ret False)"

text \<open>
  \<open>maxDurationMinutes\<close> is spliced into \<^verbatim>\<open>INTERVAL '<n> minutes'\<close>; a minute is 60000
  clock units.
\<close>

definition cleanupAbandonedSessions :: "int \<Rightarrow> (nat, world) io" where
  "cleanupAbandonedSessions maxDurationMinutes =
     try_catch
       (bind_io (\<lambda>w. db_update_sessions
                        (\<lambda>r. sess_status r = ACTIVE
                              \<and> int (started_at r) < int (now w) - maxDurationMinutes * 60000)
                        (\<lambda>r. r\<lparr>sess_status := ABANDONED, ended_at := Some (now w)\<rparr>) w) (\<lambda>rows.
          ret (length rows)))
       (\<lambda>error. ret 0)"

subsection \<open>The periodic job (jobs/sessionCleanup.ts)\<close>

definition ABANDONED_SESSION_TIMEOUT :: int where
  "ABANDONED_SESSION_TIMEOUT = 60"

text \<open>
  \<^verbatim>\<open>MetricsService.sessionsEnded.labels('video', 'abandoned').inc(count)\<close>: the class
  \<^verbatim>\<open>MetricsService\<close> of config/monitoring.ts has no member \<^verbatim>\<open>sessionsEnded\<close> (the counter
  of that name is a constant of the module), so the member read is undefined and the call
  on it throws.
\<close>

definition MetricsService_sessionsEnded_inc :: "nat \<Rightarrow> (unit, world) io" where
  "MetricsService_sessionsEnded_inc n = throw TypeError"

definition job_cleanupAbandonedSessions :: "(nat, world) io" where
  "job_cleanupAbandonedSessions =
     try_catch
       (bind_io (cleanupAbandonedSessions ABANDONED_SESSION_TIMEOUT) (\<lambda>count.
        bind_io (if count > 0 then MetricsService_sessionsEnded_inc count else ret ()) (\<lambda>u.
        ret count)))
       (\<lambda>error. ret 0)"


section \<open>Concrete worlds\<close>

text \<open>
  An idle world at clock 1000 with two registered users, and the same world with the video
  matching lock held by some other writer until clock 9000.
\<close>

definition world0 :: world where
  "world0 = \<lparr>kv = [], redis_faults = [], published = [], subscribed = [], sessions = [],
             users = [(''u1'', 0), (''u2'', 0)], db_faults = [], now = 1000,
             online_users_gauge = 0\<rparr>"

definition lock_video :: key where
  "lock_video = LOCK_MATCHING @ ''video''"

definition world_held :: world where
  "world_held = world0\<lparr>kv := [(lock_video, \<lparr>val = Raw ''owner-B'', expires_at = Some 9000\<rparr>)]\<rparr>"

text \<open>A critical section that bumps the gauge, and one that throws after bumping it.\<close>

definition bump_gauge :: "(unit, world) io" where
  "bump_gauge = (\<lambda>w. (Inr (), w\<lparr>online_users_gauge := online_users_gauge w + 1\<rparr>))"

definition bump_then_throw :: "(unit, world) io" where
  "bump_then_throw = bind_io bump_gauge (\<lambda>u. throw (CallbackError ''boom''))"


text \<open>
  The clock at 4000000 and four sessions: one active for more than an hour, one active
  for less, one ended, one abandoned.
\<close>

definition world_sessions :: world where
  "world_sessions = world0\<lparr>now := 4000000, sessions :=
     [\<lparr>sess_id = ''s1'', session_type = VIDEO, user1_id = ''u1'', user2_id = ''u2'',
        sess_status = ACTIVE, started_at = 100000, ended_at = None, created_at = 100000\<rparr>,
      \<lparr>sess_id = ''s2'', session_type = TEXT, user1_id = ''u2'', user2_id = ''u1'',
        sess_status = ACTIVE, started_at = 3000000, ended_at = None, created_at = 3000000\<rparr>,
      \<lparr>sess_id = ''s3'', session_type = AUDIO, user1_id = ''u1'', user2_id = ''u2'',
        sess_status = ENDED, started_at = 100, ended_at = Some 200, created_at = 100\<rparr>,
      \<lparr>sess_id = ''s4'', session_type = TEXT, user1_id = ''u1'', user2_id = ''u2'',
        sess_status = ABANDONED, started_at = 300, ended_at = Some 5000, created_at = 300\<rparr>]\<rparr>"

text \<open>
  The world one second after \<^verbatim>\<open>setUserOnline\<close> wrote alice's record for socket sock1, and
  a critical section that reads a queue key from the store; in \<open>world_flaky\<close> the store
  serves the first command and fails the second. \<open>ignore_message\<close> is a handler that does
  nothing.
\<close>

definition world_alice :: world where
  "world_alice = world0\<lparr>now := 2000,
     kv := [(USER_ONLINE @ ''alice'',
              \<lparr>val = PresenceJson \<lparr>userId = ''alice'', status = ONLINE,
                                    socketId = Some ''sock1'', lastSeen = 1000\<rparr>,
                expires_at = Some 301000\<rparr>),
            (SOCKET_USER @ ''sock1'', \<lparr>val = Raw ''alice'', expires_at = Some 301000\<rparr>)]\<rparr>"

definition ignore_message :: "message \<Rightarrow> (unit, world) io" where
  "ignore_message msg = ret ()"

definition world_flaky :: world where
  "world_flaky = world0\<lparr>redis_faults := [False, True]\<rparr>"

definition world_down :: world where
  "world_down = world_alice\<lparr>redis_faults := [True]\<rparr>"

definition read_queue :: "(rvalue option, world) io" where
  "read_queue = redis_get ''queue:text''"

section \<open>Proofs: the distributed lock\<close>

lemmas io_defs = ret_def throw_def bind_io_def try_catch_def try_finally_def

lemma kv_served [simp]: "kv (served w) = kv w"
  by (simp add: served_def)

lemma now_served [simp]: "now (served w) = now w"
  by (simp add: served_def)

lemma published_served [simp]: "published (served w) = published w"
  by (simp add: served_def)

lemma lookup_delete:
  "lookup (w\<lparr>kv := AList.delete k (kv w)\<rparr>) k' = (if k' = k then None else lookup w k')"
  by (simp add: lookup_def AList.delete_conv' split: option.splits)

lemma lookup_update:
  "lookup (w\<lparr>kv := AList.update k e (kv w)\<rparr>) k' =
     (if k' = k then (if live (now w) e then Some (val e) else None) else lookup w k')"
  by (simp add: lookup_def AList.update_conv' split: option.splits)

lemma acquireLock_eq:
  "acquireLock k ttl w =
     (if next_redis_fault w \<or> ttl \<le> 0 then (Inr False, served w)
      else case lookup w k of
             Some old \<Rightarrow> (Inr False, served w)
           | None \<Rightarrow> (Inr True, served (w\<lparr>kv := AList.update k
                 \<lparr>val = Raw ''1'', expires_at = Some (now w + nat ttl)\<rparr> (kv w)\<rparr>)))"
  by (simp add: acquireLock_def redis_set_px_nx_def io_defs split: option.splits)

lemma releaseLock_eq:
  "releaseLock k w =
     (if next_redis_fault w then (Inr (), served w)
      else (Inr (), served (w\<lparr>kv := AList.delete k (kv w)\<rparr>)))"
  by (simp add: releaseLock_def redis_del_def io_defs)

lemma acquireLock_total: "\<exists>b w'. acquireLock k ttl w = (Inr b, w')"
  by (auto simp add: acquireLock_eq split: option.splits)

lemma world0_simps:
  "kv world0 = []" "redis_faults world0 = []" "now world0 = 1000" "published world0 = []"
  "online_users_gauge world0 = 0" "db_faults world0 = []" "sessions world0 = []"
  by (simp_all add: world0_def)

lemma world_held_simps:
  "kv world_held = [(lock_video, \<lparr>val = Raw ''owner-B'', expires_at = Some 9000\<rparr>)]"
  "redis_faults world_held = []" "now world_held = 1000"
  by (simp_all add: world_held_def world0_def)

subsection \<open>Releasing the lock\<close>

text \<open>
  C1, as amended. \<^verbatim>\<open>releaseLock\<close> takes the key alone. When the store serves the DEL, the
  key is absent afterwards whatever value was stored under it and whoever stored it, and
  every other key reads as before. There is no ownership token: \<^verbatim>\<open>acquireLock\<close> stores the
  constant \<^verbatim>\<open>'1'\<close> and returns a boolean.
\<close>

theorem releaseLock_unconditional:
  assumes "\<not> next_redis_fault w"
  shows "fst (releaseLock k w) = Inr ()
       \<and> lookup (snd (releaseLock k w)) k = None
       \<and> (\<forall>k'. k' \<noteq> k \<longrightarrow> lookup (snd (releaseLock k w)) k' = lookup w k')"
  using assms by (simp add: releaseLock_eq lookup_served lookup_delete)

text \<open>
  C1, witness: a lock held with the value \<^verbatim>\<open>owner-B\<close> is gone after the release.
\<close>

theorem releaseLock_unconditional_witness:
  "\<not> next_redis_fault world_held
   \<and> lookup world_held lock_video = Some (Raw ''owner-B'')
   \<and> fst (releaseLock lock_video world_held) = Inr ()
   \<and> lookup (snd (releaseLock lock_video world_held)) lock_video = None"
proof -
  have h: "\<not> next_redis_fault world_held"
    by (simp add: next_redis_fault_def world_held_simps)
  have l: "lookup world_held lock_video = Some (Raw ''owner-B'')"
    by (simp add: lookup_def world_held_simps live_def)
  show ?thesis
    using h l releaseLock_unconditional [OF h, of lock_video] by simp
qed

text \<open>
  C1 as stated fails. A release deletes a lock whose stored value differs from the value
  an acquire of this service writes; and a holder whose lock expired at clock 6000 and was
  re-acquired by a second caller at clock 7000 deletes the second caller's lock.
\<close>

theorem releaseLock_token_counterexample:
  "lookup world_held lock_video = Some (Raw ''owner-B'')
   \<and> Raw ''owner-B'' \<noteq> Raw ''1''
   \<and> lookup (snd (releaseLock lock_video world_held)) lock_video = None
   \<and> fst (acquireLock lock_video 5000 world0) = Inr True
   \<and> fst (acquireLock lock_video 5000
            (advance 6000 (snd (acquireLock lock_video 5000 world0)))) = Inr True
   \<and> lookup (snd (releaseLock lock_video
               (snd (acquireLock lock_video 5000
                 (advance 6000 (snd (acquireLock lock_video 5000 world0)))))))
        lock_video = None"
  by (simp add: releaseLock_eq acquireLock_eq lookup_served lookup_delete lookup_update
      next_redis_fault_def world_held_simps world0_simps lookup_def live_def advance_def
      served_def)


subsection \<open>Acquiring the lock\<close>

text \<open>
  C2. When the store serves the SET with a positive expiry, \<^verbatim>\<open>acquireLock\<close> reports
  success exactly when the key is absent (never set, deleted or expired). On success the
  key holds \<^verbatim>\<open>'1'\<close> with expiry \<open>now + ttl\<close> and no other key changes; on failure the
  key space is unchanged. A second acquire of the same key before the expiry fails, so of
  two acquires on a free key exactly the first succeeds.
\<close>

theorem acquireLock_exclusive:
  assumes "\<not> next_redis_fault w" and "0 < ttl"
  shows "fst (acquireLock k ttl w) = Inr (lookup w k = None)
       \<and> (lookup w k = None \<longrightarrow>
            map_of (kv (snd (acquireLock k ttl w))) k
              = Some \<lparr>val = Raw ''1'', expires_at = Some (now w + nat ttl)\<rparr>
            \<and> lookup (snd (acquireLock k ttl w)) k = Some (Raw ''1'')
            \<and> (\<forall>k'. k' \<noteq> k \<longrightarrow>
                  map_of (kv (snd (acquireLock k ttl w))) k' = map_of (kv w) k'))
       \<and> (lookup w k \<noteq> None \<longrightarrow> kv (snd (acquireLock k ttl w)) = kv w)
       \<and> (\<forall>d ttl'. lookup w k = None \<and> d < nat ttl \<longrightarrow>
            fst (acquireLock k ttl' (advance d (snd (acquireLock k ttl w)))) = Inr False)"
  using assms
  by (auto simp add: acquireLock_eq AList.update_conv' lookup_served lookup_update live_def
      advance_def lookup_def split: option.splits)

text \<open>
  C2, witness: on the idle world the first acquire succeeds and a second one 100 clock
  units later fails; on the world where the lock is held the acquire fails and changes
  nothing.
\<close>

theorem acquireLock_exclusive_witness:
  "\<not> next_redis_fault world0 \<and> (0::int) < 5000
   \<and> lookup world0 lock_video = None
   \<and> fst (acquireLock lock_video 5000 world0) = Inr True
   \<and> lookup (snd (acquireLock lock_video 5000 world0)) lock_video = Some (Raw ''1'')
   \<and> fst (acquireLock lock_video 5000
            (advance 100 (snd (acquireLock lock_video 5000 world0)))) = Inr False
   \<and> \<not> next_redis_fault world_held \<and> lookup world_held lock_video \<noteq> None
   \<and> fst (acquireLock lock_video 5000 world_held) = Inr False
   \<and> kv (snd (acquireLock lock_video 5000 world_held)) = kv world_held"
proof -
  have h0: "\<not> next_redis_fault world0"
    by (simp add: next_redis_fault_def world0_simps)
  have h1: "\<not> next_redis_fault world_held"
    by (simp add: next_redis_fault_def world_held_simps)
  have t: "(0::int) < 5000" by simp
  have l0: "lookup world0 lock_video = None"
    by (simp add: lookup_def world0_simps)
  have l1: "lookup world_held lock_video = Some (Raw ''owner-B'')"
    by (simp add: lookup_def world_held_simps live_def)
  have d: "(100::nat) < nat 5000" by simp
  from acquireLock_exclusive [OF h0 t, of lock_video] l0 d
  have a: "fst (acquireLock lock_video 5000 world0) = Inr True"
    "lookup (snd (acquireLock lock_video 5000 world0)) lock_video = Some (Raw ''1'')"
    "fst (acquireLock lock_video 5000
            (advance 100 (snd (acquireLock lock_video 5000 world0)))) = Inr False"
    by simp_all
  from acquireLock_exclusive [OF h1 t, of lock_video] l1
  have b: "fst (acquireLock lock_video 5000 world_held) = Inr False"
    "kv (snd (acquireLock lock_video 5000 world_held)) = kv world_held"
    by simp_all
  show ?thesis using h0 h1 l0 l1 a b by simp
qed

subsection \<open>The scoped lock\<close>



lemma acq0: "acquireLock lock_video 5000 world0 =
   (Inr True, world0\<lparr>kv := [(lock_video, \<lparr>val = Raw ''1'', expires_at = Some 6000\<rparr>)]\<rparr>)"
  by (simp add: acquireLock_eq next_redis_fault_def world0_def lookup_def served_def)



section \<open>Proofs: the session model\<close>

lemma sessions_db_served [simp]: "sessions (db_served w) = sessions w"
  by (simp add: db_served_def)

lemma endSession_eq:
  "endSession sid st w =
     (if next_db_fault w
         \<or> \<not> list_all row_check
              (map (\<lambda>r. r\<lparr>sess_status := st, ended_at := Some (now w)\<rparr>)
                 (filter (\<lambda>r. sess_id r = sid \<and> sess_status r = ACTIVE) (sessions w)))
      then (Inr False, db_served w)
      else (Inr (filter (\<lambda>r. sess_id r = sid \<and> sess_status r = ACTIVE) (sessions w) \<noteq> []),
            db_served (w\<lparr>sessions :=
              map (\<lambda>r. if sess_id r = sid \<and> sess_status r = ACTIVE
                        then r\<lparr>sess_status := st, ended_at := Some (now w)\<rparr> else r)
                  (sessions w)\<rparr>)))"
  by (simp add: endSession_def db_update_sessions_def io_defs)

lemma cleanupAbandonedSessions_eq:
  "cleanupAbandonedSessions m w =
     (if next_db_fault w
         \<or> \<not> list_all row_check
              (map (\<lambda>r. r\<lparr>sess_status := ABANDONED, ended_at := Some (now w)\<rparr>)
                 (filter (\<lambda>r. sess_status r = ACTIVE
                               \<and> int (started_at r) < int (now w) - m * 60000) (sessions w)))
      then (Inr 0, db_served w)
      else (Inr (length (filter (\<lambda>r. sess_status r = ACTIVE
                               \<and> int (started_at r) < int (now w) - m * 60000) (sessions w))),
            db_served (w\<lparr>sessions :=
              map (\<lambda>r. if sess_status r = ACTIVE
                           \<and> int (started_at r) < int (now w) - m * 60000
                        then r\<lparr>sess_status := ABANDONED, ended_at := Some (now w)\<rparr> else r)
                  (sessions w)\<rparr>)))"
  by (simp add: cleanupAbandonedSessions_def db_update_sessions_def io_defs)

lemma list_all2_map_self:
  "(\<And>r. r \<in> set xs \<Longrightarrow> P r (f r)) \<Longrightarrow> list_all2 P xs (map f xs)"
  by (induction xs) auto

subsection \<open>Status transitions of a session\<close>

text \<open>
  C3. \<^verbatim>\<open>endSession\<close> (with any target status) and \<^verbatim>\<open>cleanupAbandonedSessions\<close> keep
  the rows of the table in place and rewrite active rows only: a row whose status is ended
  or abandoned is left exactly as it was, and every change of status they perform starts
  from active and goes to ended or abandoned. The step from abandoned to ended, which the
  state machine allows, is performed by neither operation.
\<close>

theorem status_leaves_active_only:
  "list_all2 (\<lambda>r r'. sess_id r' = sess_id r
                \<and> (sess_status r \<noteq> ACTIVE \<longrightarrow> r' = r)
                \<and> (sess_status r' \<noteq> sess_status r \<longrightarrow>
                      sess_status r = ACTIVE \<and> sess_status r' = st
                      \<and> (st = ENDED \<or> st = ABANDONED)))
      (sessions w) (sessions (snd (endSession sid st w)))
   \<and> list_all2 (\<lambda>r r'. sess_id r' = sess_id r
                \<and> (sess_status r \<noteq> ACTIVE \<longrightarrow> r' = r)
                \<and> (sess_status r' \<noteq> sess_status r \<longrightarrow>
                      sess_status r = ACTIVE \<and> sess_status r' = ABANDONED))
      (sessions w) (sessions (snd (cleanupAbandonedSessions m w)))"
proof -
  have refl: "\<And>P xs. (\<And>r. P r r) \<Longrightarrow> list_all2 P xs xs"
    by (simp add: list_all2_same)
  have e: "list_all2 (\<lambda>r r'. sess_id r' = sess_id r
                \<and> (sess_status r \<noteq> ACTIVE \<longrightarrow> r' = r)
                \<and> (sess_status r' \<noteq> sess_status r \<longrightarrow>
                      sess_status r = ACTIVE \<and> sess_status r' = st
                      \<and> (st = ENDED \<or> st = ABANDONED)))
      (sessions w) (sessions (snd (endSession sid st w)))"
    unfolding endSession_eq
    by (cases st) (auto intro!: list_all2_map_self simp: list_all2_same split: if_splits)
  have c: "list_all2 (\<lambda>r r'. sess_id r' = sess_id r
                \<and> (sess_status r \<noteq> ACTIVE \<longrightarrow> r' = r)
                \<and> (sess_status r' \<noteq> sess_status r \<longrightarrow>
                      sess_status r = ACTIVE \<and> sess_status r' = ABANDONED))
      (sessions w) (sessions (snd (cleanupAbandonedSessions m w)))"
    unfolding cleanupAbandonedSessions_eq
    by (auto intro!: list_all2_map_self simp: list_all2_same split: if_splits)
  show ?thesis using e c by simp
qed


lemma world_sessions_simps:
  "now world_sessions = 4000000" "db_faults world_sessions = []"
  "sessions world_sessions =
     [\<lparr>sess_id = ''s1'', session_type = VIDEO, user1_id = ''u1'', user2_id = ''u2'',
        sess_status = ACTIVE, started_at = 100000, ended_at = None, created_at = 100000\<rparr>,
      \<lparr>sess_id = ''s2'', session_type = TEXT, user1_id = ''u2'', user2_id = ''u1'',
        sess_status = ACTIVE, started_at = 3000000, ended_at = None, created_at = 3000000\<rparr>,
      \<lparr>sess_id = ''s3'', session_type = AUDIO, user1_id = ''u1'', user2_id = ''u2'',
        sess_status = ENDED, started_at = 100, ended_at = Some 200, created_at = 100\<rparr>,
      \<lparr>sess_id = ''s4'', session_type = TEXT, user1_id = ''u1'', user2_id = ''u2'',
        sess_status = ABANDONED, started_at = 300, ended_at = Some 5000, created_at = 300\<rparr>]"
  by (simp_all add: world_sessions_def world0_def)

lemmas eval_sessions = endSession_eq cleanupAbandonedSessions_eq world_sessions_simps
  next_db_fault_def row_check_def sessions_users_different_def
  sessions_ended_after_started_def

text \<open>
  C3, witness: on the table of four sessions, ending the ended and the abandoned session
  changes nothing, ending the younger active session makes it ended, and the sweep makes
  the older active session abandoned.
\<close>

theorem status_leaves_active_only_witness:
  "map sess_status (sessions world_sessions) = [ACTIVE, ACTIVE, ENDED, ABANDONED]
   \<and> sessions (snd (endSession ''s3'' ENDED world_sessions)) = sessions world_sessions
   \<and> sessions (snd (endSession ''s4'' ENDED world_sessions)) = sessions world_sessions
   \<and> map sess_status (sessions (snd (endSession ''s2'' ENDED world_sessions)))
        = [ACTIVE, ENDED, ENDED, ABANDONED]
   \<and> map sess_status (sessions (snd (cleanupAbandonedSessions 60 world_sessions)))
        = [ABANDONED, ACTIVE, ENDED, ABANDONED]"
  using status_leaves_active_only [of ENDED world_sessions "''s3''" 60]
    status_leaves_active_only [of ENDED world_sessions "''s4''" 60]
    status_leaves_active_only [of ENDED world_sessions "''s2''" 60]
  by (simp add: eval_sessions)

subsection \<open>Ending a session twice\<close>

text \<open>
  C4. Let the table hold an active session with the given id, let its rows satisfy the
  users-different constraint and have started no later than the clock reads, and let the
  store serve the first UPDATE. Then the first \<^verbatim>\<open>endSession\<close> returns true and rewrites
  exactly the active rows with that id to ended with the end timestamp \<open>now\<close>; every later
  call, in any world with that table (whatever the clock and the store's health), returns
  false, throws nothing and leaves the table as it is.
\<close>

theorem endSession_idempotent:
  assumes "\<not> next_db_fault w"
    and "\<exists>r \<in> set (sessions w). sess_id r = sid \<and> sess_status r = ACTIVE"
    and "\<forall>r \<in> set (sessions w). sessions_users_different r \<and> started_at r \<le> now w"
  shows "fst (endSession sid ENDED w) = Inr True
       \<and> sessions (snd (endSession sid ENDED w))
           = map (\<lambda>r. if sess_id r = sid \<and> sess_status r = ACTIVE
                       then r\<lparr>sess_status := ENDED, ended_at := Some (now w)\<rparr> else r)
               (sessions w)
       \<and> (\<forall>w2. sessions w2 = sessions (snd (endSession sid ENDED w)) \<longrightarrow>
             fst (endSession sid ENDED w2) = Inr False
             \<and> sessions (snd (endSession sid ENDED w2)) = sessions w2)"
proof -
  let ?hit = "\<lambda>r. sess_id r = sid \<and> sess_status r = ACTIVE"
  let ?new = "map (\<lambda>r. if ?hit r then r\<lparr>sess_status := ENDED, ended_at := Some (now w)\<rparr> else r)
               (sessions w)"
  have ok: "list_all row_check
              (map (\<lambda>r. r\<lparr>sess_status := ENDED, ended_at := Some (now w)\<rparr>)
                 (filter ?hit (sessions w)))"
    using assms(3)
    by (auto simp: list_all_iff row_check_def sessions_users_different_def
        sessions_ended_after_started_def)
  have ne: "filter ?hit (sessions w) \<noteq> []"
    using assms(2) by (auto simp: filter_empty_conv)
  have first: "endSession sid ENDED w = (Inr True, db_served (w\<lparr>sessions := ?new\<rparr>))"
    using assms(1) ok ne by (simp add: endSession_eq)
  have none: "filter ?hit ?new = []"
  proof -
    have "\<forall>r \<in> set (sessions w).
            \<not> ?hit (if ?hit r then r\<lparr>sess_status := ENDED, ended_at := Some (now w)\<rparr> else r)"
      by simp
    then show ?thesis
      by (simp only: filter_empty_conv set_map ball_simps)
  qed
  have again: "fst (endSession sid ENDED w2) = Inr False
             \<and> sessions (snd (endSession sid ENDED w2)) = sessions w2"
    if eq: "sessions w2 = ?new" for w2
  proof -
    have f: "filter ?hit (sessions w2) = []"
      using none by (simp only: eq)
    then have nohit: "\<And>r. r \<in> set (sessions w2) \<Longrightarrow> \<not> ?hit r"
      by (simp add: filter_empty_conv)
    have m: "map (\<lambda>r. if ?hit r then r\<lparr>sess_status := ENDED, ended_at := Some (now w2)\<rparr>
                        else r) (sessions w2) = sessions w2"
      by (rule map_idI) (simp add: nohit)
    show ?thesis
      unfolding endSession_eq [of sid ENDED w2] f m by simp
  qed
  have fst1: "fst (endSession sid ENDED w) = Inr True"
    by (simp only: first fst_conv)
  have snd1: "sessions (snd (endSession sid ENDED w)) = ?new"
    by (simp add: first)
  have rest: "\<forall>w2. sessions w2 = sessions (snd (endSession sid ENDED w)) \<longrightarrow>
             fst (endSession sid ENDED w2) = Inr False
             \<and> sessions (snd (endSession sid ENDED w2)) = sessions w2"
    unfolding snd1 using again by blast
  from fst1 snd1 rest show ?thesis by blast
qed

text \<open>
  C4, witness: ending session s2 twice, 500 clock units apart.
\<close>

theorem endSession_idempotent_witness:
  "\<not> next_db_fault world_sessions
   \<and> (\<exists>r \<in> set (sessions world_sessions). sess_id r = ''s2'' \<and> sess_status r = ACTIVE)
   \<and> list_all (\<lambda>r. sessions_users_different r \<and> started_at r \<le> now world_sessions)
         (sessions world_sessions)
   \<and> fst (endSession ''s2'' ENDED world_sessions) = Inr True
   \<and> map sess_status (sessions (snd (endSession ''s2'' ENDED world_sessions)))
        = [ACTIVE, ENDED, ENDED, ABANDONED]
   \<and> map ended_at (sessions (snd (endSession ''s2'' ENDED world_sessions)))
        = [None, Some 4000000, Some 200, Some 5000]
   \<and> fst (endSession ''s2'' ENDED
             (advance 500 (snd (endSession ''s2'' ENDED world_sessions)))) = Inr False
   \<and> sessions (snd (endSession ''s2'' ENDED
             (advance 500 (snd (endSession ''s2'' ENDED world_sessions)))))
        = sessions (snd (endSession ''s2'' ENDED world_sessions))"
proof -
  have h1: "\<not> next_db_fault world_sessions"
    by (simp add: next_db_fault_def world_sessions_simps)
  have h2: "\<exists>r \<in> set (sessions world_sessions). sess_id r = ''s2'' \<and> sess_status r = ACTIVE"
    by (simp add: world_sessions_simps)
  have h3: "\<forall>r \<in> set (sessions world_sessions).
          sessions_users_different r \<and> started_at r \<le> now world_sessions"
    by (simp add: world_sessions_simps sessions_users_different_def)
  have adv: "sessions (advance 500 (snd (endSession ''s2'' ENDED world_sessions)))
      = sessions (snd (endSession ''s2'' ENDED world_sessions))"
    by (simp add: advance_def)
  note t = endSession_idempotent [OF h1 h2 h3]
  from t have a: "fst (endSession ''s2'' ENDED world_sessions) = Inr True"
    by blast
  from t have b: "sessions (snd (endSession ''s2'' ENDED world_sessions))
      = map (\<lambda>r. if sess_id r = ''s2'' \<and> sess_status r = ACTIVE
                  then r\<lparr>sess_status := ENDED, ended_at := Some (now world_sessions)\<rparr>
                  else r) (sessions world_sessions)"
    by blast
  from t adv have c: "fst (endSession ''s2'' ENDED
             (advance 500 (snd (endSession ''s2'' ENDED world_sessions)))) = Inr False
   \<and> sessions (snd (endSession ''s2'' ENDED
             (advance 500 (snd (endSession ''s2'' ENDED world_sessions)))))
        = sessions (advance 500 (snd (endSession ''s2'' ENDED world_sessions)))"
    by blast
  have b1: "map sess_status (sessions (snd (endSession ''s2'' ENDED world_sessions)))
        = [ACTIVE, ENDED, ENDED, ABANDONED]"
    unfolding b by (simp add: world_sessions_simps)
  have b2: "map ended_at (sessions (snd (endSession ''s2'' ENDED world_sessions)))
        = [None, Some 4000000, Some 200, Some 5000]"
    unfolding b by (simp add: world_sessions_simps)
  have h3': "list_all (\<lambda>r. sessions_users_different r \<and> started_at r \<le> now world_sessions)
         (sessions world_sessions)"
    using h3 by (simp only: list_all_iff)
  show ?thesis
    using h1 h2 h3' a b1 b2 c adv by simp
qed

lemma create_eq:
  "create nid ty u1 u2 w =
     (if next_db_fault w
        \<or> nid \<in> set (map sess_id (sessions w))
        \<or> u1 \<notin> set (map fst (users w))
        \<or> u2 \<notin> set (map fst (users w))
        \<or> u1 = u2
      then (Inr None, db_served w)
      else (Inr (Some \<lparr>sess_id = nid, session_type = ty, user1_id = u1, user2_id = u2,
                 sess_status = ACTIVE, started_at = now w, ended_at = None,
                 created_at = now w\<rparr>),
            db_served (w\<lparr>sessions := sessions w @
              [\<lparr>sess_id = nid, session_type = ty, user1_id = u1, user2_id = u2,
                sess_status = ACTIVE, started_at = now w, ended_at = None,
                created_at = now w\<rparr>]\<rparr>)))"
  by (simp add: create_def db_insert_session_def io_defs row_check_def
      sessions_users_different_def sessions_ended_after_started_def)

lemma users_different_endSession:
  "list_all sessions_users_different (sessions w) \<Longrightarrow>
     list_all sessions_users_different (sessions (snd (endSession sid st w)))"
  by (auto simp add: endSession_eq list_all_iff sessions_users_different_def)

lemma users_different_cleanup:
  "list_all sessions_users_different (sessions w) \<Longrightarrow>
     list_all sessions_users_different (sessions (snd (cleanupAbandonedSessions m w)))"
  by (auto simp add: cleanupAbandonedSessions_eq list_all_iff sessions_users_different_def)

subsection \<open>No session pairs a user with themselves\<close>

text \<open>
  C7. A session returned by \<^verbatim>\<open>create\<close> has the two given users, they are distinct, and
  it is the row appended to the table; with equal user ids the INSERT violates
  \<^verbatim>\<open>sessions_users_different\<close>, \<^verbatim>\<open>create\<close> returns null and the table is unchanged. A
  table whose rows all have distinct participants stays so under \<^verbatim>\<open>create\<close>,
  \<^verbatim>\<open>endSession\<close> and \<^verbatim>\<open>cleanupAbandonedSessions\<close>.
\<close>

theorem create_users_different:
  "(\<forall>s. fst (create nid ty u1 u2 w) = Inr (Some s) \<longrightarrow>
        user1_id s = u1 \<and> user2_id s = u2 \<and> user1_id s \<noteq> user2_id s
        \<and> sess_status s = ACTIVE
        \<and> sessions (snd (create nid ty u1 u2 w)) = sessions w @ [s])
   \<and> (u1 = u2 \<longrightarrow> fst (create nid ty u1 u2 w) = Inr None
          \<and> sessions (snd (create nid ty u1 u2 w)) = sessions w)
   \<and> (list_all sessions_users_different (sessions w) \<longrightarrow>
         list_all sessions_users_different (sessions (snd (create nid ty u1 u2 w)))
         \<and> list_all sessions_users_different (sessions (snd (endSession sid st w)))
         \<and> list_all sessions_users_different
             (sessions (snd (cleanupAbandonedSessions m w))))"
proof -
  have a: "\<forall>s. fst (create nid ty u1 u2 w) = Inr (Some s) \<longrightarrow>
        user1_id s = u1 \<and> user2_id s = u2 \<and> user1_id s \<noteq> user2_id s
        \<and> sess_status s = ACTIVE
        \<and> sessions (snd (create nid ty u1 u2 w)) = sessions w @ [s]"
    by (auto simp add: create_eq split: if_splits)
  have b: "u1 = u2 \<longrightarrow> fst (create nid ty u1 u2 w) = Inr None
          \<and> sessions (snd (create nid ty u1 u2 w)) = sessions w"
    by (simp add: create_eq)
  have c: "list_all sessions_users_different (sessions w) \<Longrightarrow>
         list_all sessions_users_different (sessions (snd (create nid ty u1 u2 w)))"
    by (simp add: create_eq sessions_users_different_def)
  show ?thesis
    using a b c users_different_endSession users_different_cleanup by blast
qed

text \<open>
  C7, witness: creating a session for u1 and u2 succeeds, for u1 and u1 it returns null.
\<close>

theorem create_users_different_witness:
  "fst (create ''s9'' VIDEO ''u1'' ''u2'' world0)
     = Inr (Some \<lparr>sess_id = ''s9'', session_type = VIDEO, user1_id = ''u1'',
                  user2_id = ''u2'', sess_status = ACTIVE, started_at = 1000,
                  ended_at = None, created_at = 1000\<rparr>)
   \<and> length (sessions (snd (create ''s9'' VIDEO ''u1'' ''u2'' world0))) = 1
   \<and> ''u1'' = ''u1''
   \<and> fst (create ''s9'' VIDEO ''u1'' ''u1'' world0) = Inr None
   \<and> sessions (snd (create ''s9'' VIDEO ''u1'' ''u1'' world0)) = []
   \<and> list_all sessions_users_different (sessions world_sessions)
   \<and> list_all sessions_users_different
        (sessions (snd (create ''s9'' VIDEO ''u1'' ''u2'' world_sessions)))"
proof -
  have e: "fst (create ''s9'' VIDEO ''u1'' ''u2'' world0)
     = Inr (Some \<lparr>sess_id = ''s9'', session_type = VIDEO, user1_id = ''u1'',
                  user2_id = ''u2'', sess_status = ACTIVE, started_at = 1000,
                  ended_at = None, created_at = 1000\<rparr>)"
    by (simp add: create_eq next_db_fault_def world0_def)
  have i: "list_all sessions_users_different (sessions world_sessions)"
    by (simp add: world_sessions_simps sessions_users_different_def)
  note t0 = create_users_different [of "''s9''" VIDEO "''u1''" "''u2''" world0]
  note t1 = create_users_different [of "''s9''" VIDEO "''u1''" "''u1''" world0]
  note t2 = create_users_different [of "''s9''" VIDEO "''u1''" "''u2''" world_sessions]
  from t0 e have a: "length (sessions (snd (create ''s9'' VIDEO ''u1'' ''u2'' world0))) = 1"
    by (simp add: world0_simps)
  from t1 have b: "fst (create ''s9'' VIDEO ''u1'' ''u1'' world0) = Inr None
      \<and> sessions (snd (create ''s9'' VIDEO ''u1'' ''u1'' world0)) = []"
    by (simp add: world0_simps)
  from t2 i have c: "list_all sessions_users_different
        (sessions (snd (create ''s9'' VIDEO ''u1'' ''u2'' world_sessions)))"
    by blast
  show ?thesis using e a b c i by simp
qed

subsection \<open>The abandoned-session sweep\<close>

text \<open>
  The job's wrapper runs the sweep with the ceiling of 60 minutes; its own return value is
  0 in every case, because the metrics call throws whenever the count is positive.
\<close>

lemma job_cleanupAbandonedSessions_eq:
  "job_cleanupAbandonedSessions w = (Inr 0, snd (cleanupAbandonedSessions 60 w))"
  by (simp add: job_cleanupAbandonedSessions_def ABANDONED_SESSION_TIMEOUT_def
      MetricsService_sessionsEnded_inc_def cleanupAbandonedSessions_eq io_defs)

text \<open>
  C8. When the store serves the UPDATE, the ceiling is not negative and the rows satisfy the
  users-different constraint, \<^verbatim>\<open>cleanupAbandonedSessions\<close> rewrites exactly the rows that
  are active and started more than \<open>maxDurationMinutes\<close> minutes before \<open>now\<close> to abandoned
  with the end timestamp \<open>now\<close>, leaves every other row as it is, and returns the number
  of rows rewritten. The job runs it with the ceiling 60 and has the same effect on the
  table.
\<close>

theorem cleanupAbandonedSessions_exact:
  assumes "\<not> next_db_fault w" and "0 \<le> m"
    and "list_all sessions_users_different (sessions w)"
  shows "fst (cleanupAbandonedSessions m w)
           = Inr (length (filter (\<lambda>r. sess_status r = ACTIVE
                    \<and> int (started_at r) < int (now w) - m * 60000) (sessions w)))
       \<and> sessions (snd (cleanupAbandonedSessions m w))
           = map (\<lambda>r. if sess_status r = ACTIVE
                          \<and> int (started_at r) < int (now w) - m * 60000
                       then r\<lparr>sess_status := ABANDONED, ended_at := Some (now w)\<rparr> else r)
               (sessions w)
       \<and> ABANDONED_SESSION_TIMEOUT = 60
       \<and> sessions (snd (job_cleanupAbandonedSessions w))
           = sessions (snd (cleanupAbandonedSessions ABANDONED_SESSION_TIMEOUT w))"
proof -
  have ok: "list_all row_check
              (map (\<lambda>r. r\<lparr>sess_status := ABANDONED, ended_at := Some (now w)\<rparr>)
                 (filter (\<lambda>r. sess_status r = ACTIVE
                               \<and> int (started_at r) < int (now w) - m * 60000) (sessions w)))"
  proof -
    have "\<And>r. int (started_at r) < int (now w) - m * 60000 \<Longrightarrow> started_at r \<le> now w"
    proof -
      fix r assume "int (started_at r) < int (now w) - m * 60000"
      moreover have "0 \<le> m * 60000" using assms(2) by simp
      ultimately show "started_at r \<le> now w" by linarith
    qed
    then show ?thesis
      using assms(3)
      by (auto simp: list_all_iff row_check_def sessions_users_different_def
          sessions_ended_after_started_def)
  qed
  show ?thesis
    using assms(1) ok
    by (simp add: cleanupAbandonedSessions_eq [of m w] job_cleanupAbandonedSessions_eq
        ABANDONED_SESSION_TIMEOUT_def)
qed

text \<open>
  C8, witness: at clock 4000000 with the ceiling of 60 minutes, session s1 (started at
  100000) is the one overaged active session.
\<close>

theorem cleanupAbandonedSessions_exact_witness:
  "\<not> next_db_fault world_sessions \<and> (0::int) \<le> 60
   \<and> list_all sessions_users_different (sessions world_sessions)
   \<and> fst (cleanupAbandonedSessions 60 world_sessions) = Inr 1
   \<and> map sess_status (sessions (snd (cleanupAbandonedSessions 60 world_sessions)))
        = [ABANDONED, ACTIVE, ENDED, ABANDONED]
   \<and> map ended_at (sessions (snd (cleanupAbandonedSessions 60 world_sessions)))
        = [Some 4000000, None, Some 200, Some 5000]
   \<and> map sess_status (sessions (snd (job_cleanupAbandonedSessions world_sessions)))
        = [ABANDONED, ACTIVE, ENDED, ABANDONED]"
proof -
  have h1: "\<not> next_db_fault world_sessions"
    by (simp add: next_db_fault_def world_sessions_simps)
  have h2: "(0::int) \<le> 60" by simp
  have h3: "list_all sessions_users_different (sessions world_sessions)"
    by (simp add: world_sessions_simps sessions_users_different_def)
  note t = cleanupAbandonedSessions_exact [OF h1 h2 h3]
  from t have a: "fst (cleanupAbandonedSessions 60 world_sessions) = Inr 1"
    by (simp add: world_sessions_simps ABANDONED_SESSION_TIMEOUT_def)
  from t have b: "sessions (snd (cleanupAbandonedSessions 60 world_sessions))
      = map (\<lambda>r. if sess_status r = ACTIVE
                     \<and> int (started_at r) < int (now world_sessions) - 60 * 60000
                  then r\<lparr>sess_status := ABANDONED, ended_at := Some (now world_sessions)\<rparr>
                  else r) (sessions world_sessions)"
    by blast
  from t have j: "sessions (snd (job_cleanupAbandonedSessions world_sessions))
      = sessions (snd (cleanupAbandonedSessions 60 world_sessions))"
    by (simp add: ABANDONED_SESSION_TIMEOUT_def)
  have b1: "map sess_status (sessions (snd (cleanupAbandonedSessions 60 world_sessions)))
        = [ABANDONED, ACTIVE, ENDED, ABANDONED]"
    unfolding b by (simp add: world_sessions_simps)
  have b2: "map ended_at (sessions (snd (cleanupAbandonedSessions 60 world_sessions)))
        = [Some 4000000, None, Some 200, Some 5000]"
    unfolding b by (simp add: world_sessions_simps)
  show ?thesis using h1 h3 a b1 b2 j by simp
qed

section \<open>Proofs: the presence tracker\<close>

subsection \<open>The SCAN loop\<close>

lemma try_catch_ret_total: "\<not> isl (fst (try_catch m (\<lambda>error. ret v) w))"
  by (cases "m w" rule: prod.exhaust; cases "fst (m w)")
     (auto simp add: try_catch_def ret_def split: prod.splits sum.splits)

lemma served_idle: "redis_faults w = [] \<Longrightarrow> served w = w"
  by (simp add: served_def)

lemma not_fault_idle: "redis_faults w = [] \<Longrightarrow> \<not> next_redis_fault w"
  by (simp add: next_redis_fault_def)

lemma scan_count_idle:
  "redis_faults w = [] \<Longrightarrow>
     scan_count c n w = (Inr (n + (length (matching_keys USER_ONLINE w) - c)), w)"
proof (induction c n w rule: scan_count.induct)
  case (1 cursor count w)
  let ?ks = "matching_keys USER_ONLINE w"
  have nf: "\<not> next_redis_fault w" and sv: "served w = w"
    using "1.prems" by (simp_all add: not_fault_idle served_idle)
  show ?case
  proof (cases "length ?ks \<le> cursor + 100")
    case True
    then show ?thesis
      using nf sv by (subst scan_count.simps) (simp add: redis_scan_def)
  next
    case False
    have sc: "redis_scan cursor USER_ONLINE 100 w
        = (Inr (cursor + 100, take 100 (drop cursor ?ks)), w)"
      using nf sv False by (simp add: redis_scan_def)
    have "scan_count (cursor + 100) (count + length (take 100 (drop cursor ?ks))) w
        = (Inr (count + length (take 100 (drop cursor ?ks))
                + (length ?ks - (cursor + 100))), w)"
      using "1.IH" [OF sc [symmetric] refl refl _ "1.prems"] by simp
    then show ?thesis
      using False by (subst scan_count.simps) (simp add: sc)
  qed
qed

lemma scan_count_fault:
  "\<exists>j < length (redis_faults w). redis_faults w ! j
       \<and> (j = 0 \<or> c + j * 100 < length (matching_keys USER_ONLINE w)) \<Longrightarrow>
     fst (scan_count c n w) = Inl StoreError"
proof (induction c n w rule: scan_count.induct)
  case (1 cursor count w)
  let ?ks = "matching_keys USER_ONLINE w"
  from "1.prems" obtain j where j: "j < length (redis_faults w)" "redis_faults w ! j"
    "j = 0 \<or> cursor + j * 100 < length ?ks"
    by blast
  show ?case
  proof (cases "next_redis_fault w")
    case True
    then show ?thesis
      by (subst scan_count.simps) (simp add: redis_scan_def)
  next
    case False
    have "j \<noteq> 0"
    proof
      assume "j = 0"
      with j(1,2) False show False
        by (cases "redis_faults w") (simp_all add: next_redis_fault_def)
    qed
    then obtain i where i: "j = Suc i"
      by (cases j) auto
    with j have big: "cursor + 100 < length ?ks"
      by simp
    have sc: "redis_scan cursor USER_ONLINE 100 w
        = (Inr (cursor + 100, take 100 (drop cursor ?ks)), served w)"
      using False big by (simp add: redis_scan_def)
    have tl: "redis_faults (served w) = tl (redis_faults w)"
      by (simp add: served_def)
    have "\<exists>j < length (redis_faults (served w)). redis_faults (served w) ! j
        \<and> (j = 0 \<or> cursor + 100 + j * 100 < length (matching_keys USER_ONLINE (served w)))"
      using j i by (intro exI [of _ i]) (auto simp add: tl nth_tl matching_keys_served)
    from "1.IH" [OF sc [symmetric] refl refl _ this]
    have "fst (scan_count (cursor + 100) (count + length (take 100 (drop cursor ?ks)))
                 (served w)) = Inl StoreError"
      by simp
    then show ?thesis
      by (subst scan_count.simps) (simp add: sc)
  qed
qed

lemma getOnlineUsersCount_idle:
  "redis_faults w = [] \<Longrightarrow>
     getOnlineUsersCount w = (Inr (length (matching_keys USER_ONLINE w)), w)"
  by (simp add: getOnlineUsersCount_def try_catch_def scan_count_idle)

lemma getOnlineUsersCount_fault:
  assumes "\<exists>j < length (redis_faults w). redis_faults w ! j
       \<and> (j = 0 \<or> j * 100 < length (matching_keys USER_ONLINE w))"
  shows "fst (getOnlineUsersCount w) = Inr 0"
proof -
  have "fst (scan_count 0 0 w) = Inl StoreError"
    using assms by (intro scan_count_fault) simp
  then show ?thesis
    by (cases "scan_count 0 0 w") (simp add: getOnlineUsersCount_def try_catch_def ret_def)
qed

subsection \<open>What the presence operations compute\<close>

lemma getUserPresence_eq:
  "getUserPresence uid w =
     (Inr (if next_redis_fault w then None
           else case lookup w (USER_ONLINE @ uid) of
                  Some (PresenceJson p) \<Rightarrow> Some p
                | other \<Rightarrow> None),
      served w)"
  by (simp add: getUserPresence_def redis_get_def json_parse_def io_defs
      split: option.splits rvalue.splits)

lemma isUserOnline_eq:
  "isUserOnline uid w = (Inr (fst (getUserPresence uid w) \<noteq> Inr None), served w)"
  by (simp add: isUserOnline_def getUserPresence_eq io_defs)

lemma getUserStatus_eq:
  "getUserStatus uid w =
     (Inr (case fst (getUserPresence uid w) of
             Inr (Some p) \<Rightarrow> status p
           | other \<Rightarrow> OFFLINE),
      served w)"
  by (simp add: getUserStatus_def getUserPresence_eq io_defs split: option.splits rvalue.splits)

lemma updateLastSeen_eq:
  "updateLastSeen uid w =
     (if next_db_fault w then (Inr False, db_served w)
      else (Inr True, db_served
        (w\<lparr>users := map (\<lambda>(u, t). if u = uid then (u, now w) else (u, t)) (users w)\<rparr>)))"
  by (simp add: updateLastSeen_def db_update_last_seen_def io_defs)

lemma publish_eq:
  "publish ch msg w =
     (if next_redis_fault w then (Inr (), served w)
      else (Inr (), served (w\<lparr>published := published w @ [(ch, msg)]\<rparr>)))"
  by (simp add: publish_def redis_publish_def io_defs)

lemma updateUserStatus_eq:
  "updateUserStatus uid st w =
     (case fst (getUserPresence uid w) of
        Inr (Some p) \<Rightarrow>
          if next_redis_fault (served w) then (Inr False, served (served w))
          else (Inr True, served (served w\<lparr>kv := AList.update (USER_ONLINE @ uid)
                  \<lparr>val = PresenceJson (p\<lparr>status := st, lastSeen := now w\<rparr>),
                    expires_at = Some (now w + PRESENCE_TTL * 1000)\<rparr> (kv w)\<rparr>))
      | other \<Rightarrow> (Inr False, served w))"
  by (simp add: updateUserStatus_def getUserPresence_eq redis_setex_def PRESENCE_TTL_def io_defs
      split: option.splits rvalue.splits)

lemma updateUserStatus_published:
  "published (snd (updateUserStatus uid st w)) = published w"
  by (simp add: updateUserStatus_eq split: sum.splits option.splits)

lemma redis_faults_served [simp]: "redis_faults (served w) = tl (redis_faults w)"
  by (simp add: served_def)

lemma db_served_fields [simp]:
  "redis_faults (db_served w) = redis_faults w" "kv (db_served w) = kv w"
  "now (db_served w) = now w" "published (db_served w) = published w"
  by (simp_all add: db_served_def)

lemma setUserOnline_idle:
  assumes "redis_faults w = []"
  shows "fst (setUserOnline uid sock st w) = Inr False
       \<and> kv (snd (setUserOnline uid sock st w))
           = AList.update (SOCKET_USER @ sock)
               \<lparr>val = Raw uid, expires_at = Some (now w + PRESENCE_TTL * 1000)\<rparr>
               (AList.update (USER_ONLINE @ uid)
                  \<lparr>val = PresenceJson \<lparr>userId = uid, status = st, socketId = Some sock,
                                        lastSeen = now w\<rparr>,
                    expires_at = Some (now w + PRESENCE_TTL * 1000)\<rparr> (kv w))
       \<and> now (snd (setUserOnline uid sock st w)) = now w
       \<and> redis_faults (snd (setUserOnline uid sock st w)) = []
       \<and> published (snd (setUserOnline uid sock st w)) = published w"
proof -
  have nf: "\<not> next_redis_fault w"
    using assms by (rule not_fault_idle)
  define w1 where "w1 = w\<lparr>kv := AList.update (USER_ONLINE @ uid)
                  \<lparr>val = PresenceJson \<lparr>userId = uid, status = st, socketId = Some sock,
                                        lastSeen = now w\<rparr>,
                    expires_at = Some (now w + PRESENCE_TTL * 1000)\<rparr> (kv w)\<rparr>"
  have s1: "redis_setex (USER_ONLINE @ uid) PRESENCE_TTL
              (PresenceJson \<lparr>userId = uid, status = st, socketId = Some sock,
                              lastSeen = now w\<rparr>) w = (Inr (), w1)"
    using nf assms by (simp add: redis_setex_def PRESENCE_TTL_def w1_def served_def)
  have f1: "redis_faults w1 = []" "now w1 = now w" "published w1 = published w"
    using assms by (simp_all add: w1_def)
  define w2 where "w2 = w1\<lparr>kv := AList.update (SOCKET_USER @ sock)
               \<lparr>val = Raw uid, expires_at = Some (now w + PRESENCE_TTL * 1000)\<rparr> (kv w1)\<rparr>"
  have s2: "redis_setex (SOCKET_USER @ sock) PRESENCE_TTL (Raw uid) w1 = (Inr (), w2)"
    using f1 by (simp add: redis_setex_def PRESENCE_TTL_def w2_def served_def
        next_redis_fault_def)
  have f2: "redis_faults w2 = []" "now w2 = now w" "published w2 = published w"
    using f1 by (simp_all add: w2_def)
  have "\<exists>b w3. updateLastSeen uid w2 = (Inr b, w3) \<and> redis_faults w3 = []
      \<and> now w3 = now w \<and> published w3 = published w \<and> kv w3 = kv w2"
    using f2 by (cases "next_db_fault w2") (auto simp add: updateLastSeen_eq)
  then obtain b w3 where s3: "updateLastSeen uid w2 = (Inr b, w3)"
    and f3: "redis_faults w3 = []" "now w3 = now w" "published w3 = published w"
      "kv w3 = kv w2"
    by blast
  have run: "setUserOnline uid sock st w = (Inr False, w3)"
    by (simp add: setUserOnline_def try_catch_def bind_io_def ret_def throw_def s1 s2 s3
        REDIS_CHANNELS_USER_ONLINE_def)
  show ?thesis
    using f3 by (simp add: run w2_def w1_def)
qed

lemma refreshPresence_eq:
  "refreshPresence uid w =
     (case fst (getUserPresence uid w) of
        Inr (Some p) \<Rightarrow>
          if next_redis_fault (served w) then (Inr False, served (served w))
          else (Inr True, served (served w\<lparr>kv := AList.update (USER_ONLINE @ uid)
                  \<lparr>val = PresenceJson (p\<lparr>lastSeen := now w\<rparr>),
                    expires_at = Some (now w + PRESENCE_TTL * 1000)\<rparr> (kv w)\<rparr>))
      | other \<Rightarrow> (Inr False, served w))"
  by (simp add: refreshPresence_def getUserPresence_eq redis_setex_def PRESENCE_TTL_def io_defs
      split: option.splits rvalue.splits)

lemma keys_differ: "USER_ONLINE @ uid \<noteq> SOCKET_USER @ sock"
  by (simp add: USER_ONLINE_def SOCKET_USER_def)

lemma isUserOnline_fresh:
  assumes "map_of (kv w) (USER_ONLINE @ uid)
             = Some \<lparr>val = PresenceJson p, expires_at = Some x\<rparr>"
    and "now w < x" and "\<not> next_redis_fault w"
  shows "fst (isUserOnline uid w) = Inr True"
  using assms by (simp add: isUserOnline_eq getUserPresence_eq lookup_def live_def)

subsection \<open>The presence TTL and the heartbeat interval\<close>

text \<open>
  C9. The presence TTL of 300 seconds is (at least, in fact exactly) five times the
  heartbeat interval of 60000 milliseconds. So a record written by \<^verbatim>\<open>setUserOnline\<close> or
  refreshed by \<^verbatim>\<open>refreshPresence\<close> on a healthy store is still found by
  \<^verbatim>\<open>isUserOnline\<close> any time less than five heartbeat intervals later, in particular
  after one missed heartbeat (two intervals).
\<close>

theorem presence_ttl_margin:
  "5 * HEARTBEAT_INTERVAL \<le> PRESENCE_TTL * 1000
   \<and> (\<forall>w uid sock st d. redis_faults w = [] \<and> d < 5 * HEARTBEAT_INTERVAL \<longrightarrow>
          fst (isUserOnline uid (advance d (snd (setUserOnline uid sock st w)))) = Inr True)
   \<and> (\<forall>w uid d. redis_faults w = [] \<and> fst (refreshPresence uid w) = Inr True
          \<and> d < 5 * HEARTBEAT_INTERVAL \<longrightarrow>
          fst (isUserOnline uid (advance d (snd (refreshPresence uid w)))) = Inr True)"
proof (intro conjI allI impI)
  show "5 * HEARTBEAT_INTERVAL \<le> PRESENCE_TTL * 1000"
    by (simp add: HEARTBEAT_INTERVAL_def PRESENCE_TTL_def)
next
  fix w :: world and uid sock :: string and st :: UserStatus and d :: nat
  assume a: "redis_faults w = [] \<and> d < 5 * HEARTBEAT_INTERVAL"
  let ?w' = "snd (setUserOnline uid sock st w)"
  note e = setUserOnline_idle [of w uid sock st]
  have k: "map_of (kv (advance d ?w')) (USER_ONLINE @ uid)
      = Some \<lparr>val = PresenceJson \<lparr>userId = uid, status = st, socketId = Some sock,
                                     lastSeen = now w\<rparr>,
               expires_at = Some (now w + PRESENCE_TTL * 1000)\<rparr>"
    using a e keys_differ [of uid sock]
    by (simp add: advance_def AList.update_conv')
  have t: "now (advance d ?w') < now w + PRESENCE_TTL * 1000"
    using a e by (simp add: advance_def HEARTBEAT_INTERVAL_def PRESENCE_TTL_def)
  have f: "\<not> next_redis_fault (advance d ?w')"
    using a e by (simp add: advance_def next_redis_fault_def)
  show "fst (isUserOnline uid (advance d ?w')) = Inr True"
    using k t f by (rule isUserOnline_fresh)
next
  fix w :: world and uid :: string and d :: nat
  assume a: "redis_faults w = [] \<and> fst (refreshPresence uid w) = Inr True
      \<and> d < 5 * HEARTBEAT_INTERVAL"
  let ?w' = "snd (refreshPresence uid w)"
  from a obtain p where p: "fst (getUserPresence uid w) = Inr (Some p)"
    by (auto simp add: refreshPresence_eq split: sum.splits option.splits)
  have nf: "\<not> next_redis_fault (served w)"
    using a by (simp add: next_redis_fault_def)
  have r: "?w' = served (served w\<lparr>kv := AList.update (USER_ONLINE @ uid)
                  \<lparr>val = PresenceJson (p\<lparr>lastSeen := now w\<rparr>),
                    expires_at = Some (now w + PRESENCE_TTL * 1000)\<rparr> (kv w)\<rparr>)"
    using p nf by (simp add: refreshPresence_eq)
  have k: "map_of (kv (advance d ?w')) (USER_ONLINE @ uid)
      = Some \<lparr>val = PresenceJson (p\<lparr>lastSeen := now w\<rparr>),
               expires_at = Some (now w + PRESENCE_TTL * 1000)\<rparr>"
    by (simp add: r advance_def AList.update_conv')
  have t: "now (advance d ?w') < now w + PRESENCE_TTL * 1000"
    using a by (simp add: r advance_def HEARTBEAT_INTERVAL_def PRESENCE_TTL_def)
  have f: "\<not> next_redis_fault (advance d ?w')"
    using a by (simp add: r advance_def next_redis_fault_def)
  show "fst (isUserOnline uid (advance d ?w')) = Inr True"
    using k t f by (rule isUserOnline_fresh)
qed

lemma world_alice_simps:
  "now world_alice = 2000" "redis_faults world_alice = []" "db_faults world_alice = []"
  "published world_alice = []"
  "kv world_alice = [(USER_ONLINE @ ''alice'',
              \<lparr>val = PresenceJson \<lparr>userId = ''alice'', status = ONLINE,
                                    socketId = Some ''sock1'', lastSeen = 1000\<rparr>,
                expires_at = Some 301000\<rparr>),
            (SOCKET_USER @ ''sock1'', \<lparr>val = Raw ''alice'', expires_at = Some 301000\<rparr>)]"
  by (simp_all add: world_alice_def world0_def)

text \<open>
  C9, witness: alice is still online 120000 clock units (two heartbeat intervals) after
  \<^verbatim>\<open>setUserOnline\<close> wrote her record, and after a refresh.
\<close>

theorem presence_ttl_margin_witness:
  "redis_faults world0 = [] \<and> (120000::nat) < 5 * HEARTBEAT_INTERVAL
   \<and> fst (isUserOnline ''alice''
            (advance 120000 (snd (setUserOnline ''alice'' ''sock1'' ONLINE world0)))) = Inr True
   \<and> redis_faults world_alice = []
   \<and> fst (refreshPresence ''alice'' world_alice) = Inr True
   \<and> fst (isUserOnline ''alice''
            (advance 120000 (snd (refreshPresence ''alice'' world_alice)))) = Inr True"
proof -
  have h1: "redis_faults world0 = []" by (simp add: world0_simps)
  have h2: "(120000::nat) < 5 * HEARTBEAT_INTERVAL" by (simp add: HEARTBEAT_INTERVAL_def)
  have h3: "redis_faults world_alice = []" by (simp add: world_alice_simps)
  have h4: "fst (refreshPresence ''alice'' world_alice) = Inr True"
    by (simp add: refreshPresence_eq getUserPresence_eq next_redis_fault_def lookup_def
        live_def world_alice_simps)
  note t = presence_ttl_margin
  from t h1 h2 have a: "fst (isUserOnline ''alice''
            (advance 120000 (snd (setUserOnline ''alice'' ''sock1'' ONLINE world0)))) = Inr True"
    by blast
  from t h3 h4 h2 have b: "fst (isUserOnline ''alice''
            (advance 120000 (snd (refreshPresence ''alice'' world_alice)))) = Inr True"
    by blast
  show ?thesis using h1 h2 h3 h4 a b by simp
qed

lemma online_alice:
  "fst (setUserOnline ''alice'' ''sock1'' ONLINE world0) = Inr False
   \<and> kv (snd (setUserOnline ''alice'' ''sock1'' ONLINE world0)) = kv world_alice
   \<and> published (snd (setUserOnline ''alice'' ''sock1'' ONLINE world0)) = []"
  using setUserOnline_idle [of world0 "''alice''" "''sock1''" ONLINE]
  by (simp add: world0_simps world_alice_simps PRESENCE_TTL_def USER_ONLINE_def SOCKET_USER_def)

lemma setUserOnline_never_publishes:
  "fst (setUserOnline uid sock st w) = Inr False
   \<and> published (snd (setUserOnline uid sock st w)) = published w"
  by (simp add: setUserOnline_def io_defs redis_setex_def updateLastSeen_eq
      REDIS_CHANNELS_USER_ONLINE_def)

lemma setUserOffline_never_publishes:
  "fst (setUserOffline uid w) = Inr False
   \<and> published (snd (setUserOffline uid w)) = published w"
  by (simp add: setUserOffline_def io_defs getUserPresence_eq redis_del_def updateLastSeen_eq
      REDIS_CHANNELS_USER_OFFLINE_def split: option.splits rvalue.splits)

subsection \<open>Presence changes and the bus\<close>

text \<open>
  C6 fails on every operation it names. On the idle world \<^verbatim>\<open>setUserOnline\<close> writes alice's
  record and her socket mapping, then throws at \<^verbatim>\<open>REDIS_CHANNELS.USER_ONLINE\<close> before the
  publish call: it returns false and the bus stays empty. On the world it leaves,
  \<^verbatim>\<open>updateUserStatus\<close> and \<^verbatim>\<open>setUserInCall\<close> return true and change the status in
  the stored record from online to away or in-call, and \<^verbatim>\<open>setUserOffline\<close> deletes the
  record and returns false; in each case the bus is still empty.
\<close>

theorem presence_changes_publish_nothing:
  "published world0 = []
   \<and> fst (setUserOnline ''alice'' ''sock1'' ONLINE world0) = Inr False
   \<and> kv (snd (setUserOnline ''alice'' ''sock1'' ONLINE world0)) = kv world_alice
   \<and> published (snd (setUserOnline ''alice'' ''sock1'' ONLINE world0)) = []
   \<and> published world_alice = []
   \<and> fst (getUserStatus ''alice'' world_alice) = Inr ONLINE
   \<and> fst (updateUserStatus ''alice'' AWAY world_alice) = Inr True
   \<and> fst (getUserStatus ''alice'' (snd (updateUserStatus ''alice'' AWAY world_alice)))
       = Inr AWAY
   \<and> published (snd (updateUserStatus ''alice'' AWAY world_alice)) = []
   \<and> fst (setUserInCall ''alice'' world_alice) = Inr True
   \<and> fst (getUserStatus ''alice'' (snd (setUserInCall ''alice'' world_alice))) = Inr IN_CALL
   \<and> published (snd (setUserInCall ''alice'' world_alice)) = []
   \<and> fst (isUserOnline ''alice'' world_alice) = Inr True
   \<and> fst (setUserOffline ''alice'' world_alice) = Inr False
   \<and> fst (isUserOnline ''alice'' (snd (setUserOffline ''alice'' world_alice))) = Inr False
   \<and> published (snd (setUserOffline ''alice'' world_alice)) = []"
proof -
  have g: "fst (getUserStatus ''alice'' world_alice) = Inr ONLINE"
    by (simp add: getUserStatus_eq getUserPresence_eq next_redis_fault_def lookup_def live_def
        world_alice_simps)
  have on: "fst (isUserOnline ''alice'' world_alice) = Inr True"
    by (simp add: isUserOnline_eq getUserPresence_eq next_redis_fault_def lookup_def live_def
        world_alice_simps)
  have u: "\<And>st. updateUserStatus ''alice'' st world_alice
      = (Inr True, world_alice\<lparr>kv := AList.update (USER_ONLINE @ ''alice'')
           \<lparr>val = PresenceJson \<lparr>userId = ''alice'', status = st,
                                  socketId = Some ''sock1'', lastSeen = 2000\<rparr>,
             expires_at = Some 302000\<rparr> (kv world_alice)\<rparr>)"
    by (simp add: updateUserStatus_eq getUserPresence_eq next_redis_fault_def lookup_def
        live_def world_alice_simps served_def PRESENCE_TTL_def)
  have c: "setUserInCall ''alice'' world_alice = updateUserStatus ''alice'' IN_CALL world_alice"
    by (simp add: setUserInCall_def try_catch_def u)
  have g2: "\<And>st. fst (getUserStatus ''alice'' (snd (updateUserStatus ''alice'' st world_alice)))
      = Inr st"
    by (simp add: u getUserStatus_eq getUserPresence_eq next_redis_fault_def lookup_def
        live_def world_alice_simps)
  have off: "kv (snd (setUserOffline ''alice'' world_alice)) = []
      \<and> redis_faults (snd (setUserOffline ''alice'' world_alice)) = []"
    by (simp add: setUserOffline_def io_defs getUserPresence_eq redis_del_def
        updateLastSeen_eq REDIS_CHANNELS_USER_OFFLINE_def next_redis_fault_def
        next_db_fault_def lookup_def live_def world_alice_simps served_def db_served_def
        USER_ONLINE_def SOCKET_USER_def)
  have gone: "fst (isUserOnline ''alice'' (snd (setUserOffline ''alice'' world_alice)))
      = Inr False"
    using off by (simp add: isUserOnline_eq getUserPresence_eq lookup_def)
  show ?thesis
    using online_alice g on g2 gone
      setUserOffline_never_publishes [of "''alice''" world_alice]
    by (simp add: c u world_alice_simps world0_simps)
qed

lemma withLock_eq:
  "withLock k cb ttl w =
     (if fst (acquireLock k ttl w) = Inr True
      then (map_sum id Some (fst (cb (snd (acquireLock k ttl w)))),
            snd (releaseLock k (snd (cb (snd (acquireLock k ttl w))))))
      else (Inr None, snd (acquireLock k ttl w)))"
proof -
  obtain acquired w1 where a: "acquireLock k ttl w = (Inr acquired, w1)"
    using acquireLock_total by blast
  obtain r w2 where c: "cb w1 = (r, w2)"
    by (cases "cb w1") blast
  have rel: "fst (releaseLock k w2) = Inr ()"
    by (simp add: releaseLock_eq)
  show ?thesis
    using a c rel
    by (cases r; cases "releaseLock k w2"; cases acquired)
       (simp_all add: withLock_def bind_io_def ret_def try_finally_def)
qed

lemma withLock_throws:
  "fst (withLock k cb ttl w) = Inl e \<longleftrightarrow>
     fst (acquireLock k ttl w) = Inr True \<and> fst (cb (snd (acquireLock k ttl w))) = Inl e"
  by (cases "fst (cb (snd (acquireLock k ttl w)))") (simp_all add: withLock_eq)

lemma withLock_released:
  assumes "fst (acquireLock k ttl w) = Inr True"
  shows "snd (withLock k cb ttl w) = snd (releaseLock k (snd (cb (snd (acquireLock k ttl w)))))"
    and "\<not> next_redis_fault (snd (cb (snd (acquireLock k ttl w)))) \<Longrightarrow>
           lookup (snd (withLock k cb ttl w)) k = None"
  using assms by (simp_all add: withLock_eq releaseLock_eq lookup_served lookup_delete)

lemma subscribeToPresenceEvents_throws:
  "fst (subscribeToPresenceEvents onUserOnline onUserOffline w) = Inl TypeError"
  by (simp add: subscribeToPresenceEvents_def REDIS_CHANNELS_USER_ONLINE_def bind_io_def
      throw_def)

lemma fault_first: "next_redis_fault w \<Longrightarrow>
    \<exists>j < length (redis_faults w). redis_faults w ! j
       \<and> (j = 0 \<or> j * 100 < length (matching_keys USER_ONLINE w))"
  by (cases "redis_faults w") (auto simp add: next_redis_fault_def)

subsection \<open>Store errors\<close>

text \<open>
  C10, as amended. If the store fails the next command, \<^verbatim>\<open>isUserOnline\<close> returns false,
  \<^verbatim>\<open>getUserStatus\<close> returns offline, \<^verbatim>\<open>getOnlineUsersCount\<close> returns 0 and
  \<^verbatim>\<open>acquireLock\<close> returns false and leaves the keys as they are; the count is 0 as well
  when any later SCAN of its loop fails. None of the seventeen asynchronous methods of the
  presence tracker, and neither \<^verbatim>\<open>acquireLock\<close> nor \<^verbatim>\<open>releaseLock\<close>, ever throws.
  \<^verbatim>\<open>withLock\<close> throws exactly when it acquired the lock and its callback threw, and then
  throws the callback's error; whenever it acquired the lock it leaves the world that
  \<^verbatim>\<open>releaseLock\<close> leaves after the callback, in which the key is absent if the store
  served the DEL.
\<close>

theorem store_errors_fail_closed:
  "(next_redis_fault w \<longrightarrow>
        fst (isUserOnline uid w) = Inr False
      \<and> fst (getUserStatus uid w) = Inr OFFLINE
      \<and> fst (getOnlineUsersCount w) = Inr 0
      \<and> fst (acquireLock k ttl w) = Inr False
      \<and> kv (snd (acquireLock k ttl w)) = kv w)
   \<and> ((\<exists>j < length (redis_faults w). redis_faults w ! j
          \<and> (j = 0 \<or> j * 100 < length (matching_keys USER_ONLINE w))) \<longrightarrow>
        fst (getOnlineUsersCount w) = Inr 0)
   \<and> \<not> isl (fst (isUserOnline uid w))
   \<and> \<not> isl (fst (getUserStatus uid w))
   \<and> \<not> isl (fst (getOnlineUsersCount w))
   \<and> \<not> isl (fst (acquireLock k ttl w))
   \<and> \<not> isl (fst (releaseLock k w))
   \<and> \<not> isl (fst (getUserPresence uid w))
   \<and> \<not> isl (fst (getUserBySocketId sock w))
   \<and> \<not> isl (fst (getUserSocketId uid w))
   \<and> \<not> isl (fst (setUserOnline uid sock st w))
   \<and> \<not> isl (fst (setUserOffline uid w))
   \<and> \<not> isl (fst (updateUserStatus uid st w))
   \<and> \<not> isl (fst (refreshPresence uid w))
   \<and> \<not> isl (fst (setUserAway uid w))
   \<and> \<not> isl (fst (setUserInCall uid w))
   \<and> \<not> isl (fst (getOnlineUsers w))
   \<and> \<not> isl (fst (getMultiplePresence uids w))
   \<and> \<not> isl (fst (broadcastToFriends uid uids w))
   \<and> \<not> isl (fst (cleanupStalePresence w))
   \<and> \<not> isl (fst (getPresenceStats w))
   \<and> (\<forall>e. fst (withLock k cb ttl w) = Inl e \<longleftrightarrow>
          fst (acquireLock k ttl w) = Inr True
          \<and> fst (cb (snd (acquireLock k ttl w))) = Inl e)
   \<and> (fst (acquireLock k ttl w) = Inr True \<longrightarrow>
          snd (withLock k cb ttl w)
            = snd (releaseLock k (snd (cb (snd (acquireLock k ttl w)))))
          \<and> (\<not> next_redis_fault (snd (cb (snd (acquireLock k ttl w)))) \<longrightarrow>
                lookup (snd (withLock k cb ttl w)) k = None))"
proof -
  have closed: "next_redis_fault w \<longrightarrow>
        fst (isUserOnline uid w) = Inr False
      \<and> fst (getUserStatus uid w) = Inr OFFLINE
      \<and> fst (getOnlineUsersCount w) = Inr 0
      \<and> fst (acquireLock k ttl w) = Inr False
      \<and> kv (snd (acquireLock k ttl w)) = kv w"
    using getOnlineUsersCount_fault [OF fault_first, of w]
    by (simp add: isUserOnline_eq getUserStatus_eq getUserPresence_eq acquireLock_eq)
  have scan: "(\<exists>j < length (redis_faults w). redis_faults w ! j
          \<and> (j = 0 \<or> j * 100 < length (matching_keys USER_ONLINE w))) \<longrightarrow>
        fst (getOnlineUsersCount w) = Inr 0"
    using getOnlineUsersCount_fault by blast
  have total:
    "\<not> isl (fst (isUserOnline uid w))"
    "\<not> isl (fst (getUserStatus uid w))"
    "\<not> isl (fst (getOnlineUsersCount w))"
    "\<not> isl (fst (acquireLock k ttl w))"
    "\<not> isl (fst (releaseLock k w))"
    "\<not> isl (fst (getUserPresence uid w))"
    "\<not> isl (fst (getUserBySocketId sock w))"
    "\<not> isl (fst (getUserSocketId uid w))"
    "\<not> isl (fst (setUserOnline uid sock st w))"
    "\<not> isl (fst (setUserOffline uid w))"
    "\<not> isl (fst (updateUserStatus uid st w))"
    "\<not> isl (fst (refreshPresence uid w))"
    "\<not> isl (fst (setUserAway uid w))"
    "\<not> isl (fst (setUserInCall uid w))"
    "\<not> isl (fst (getOnlineUsers w))"
    "\<not> isl (fst (getMultiplePresence uids w))"
    "\<not> isl (fst (broadcastToFriends uid uids w))"
    "\<not> isl (fst (cleanupStalePresence w))"
    "\<not> isl (fst (getPresenceStats w))"
    unfolding isUserOnline_def getUserStatus_def getOnlineUsersCount_def acquireLock_def
      releaseLock_def getUserPresence_def getUserBySocketId_def getUserSocketId_def
      setUserOnline_def setUserOffline_def updateUserStatus_def refreshPresence_def
      setUserAway_def setUserInCall_def getOnlineUsers_def getMultiplePresence_def
      broadcastToFriends_def cleanupStalePresence_def getPresenceStats_def
    by (rule try_catch_ret_total)+
  have lock: "\<forall>e. fst (withLock k cb ttl w) = Inl e \<longleftrightarrow>
          fst (acquireLock k ttl w) = Inr True
          \<and> fst (cb (snd (acquireLock k ttl w))) = Inl e"
    using withLock_throws by blast
  have rel: "fst (acquireLock k ttl w) = Inr True \<longrightarrow>
          snd (withLock k cb ttl w)
            = snd (releaseLock k (snd (cb (snd (acquireLock k ttl w)))))
          \<and> (\<not> next_redis_fault (snd (cb (snd (acquireLock k ttl w)))) \<longrightarrow>
                lookup (snd (withLock k cb ttl w)) k = None)"
    using withLock_released by blast
  show ?thesis
    using closed scan total lock rel by (intro conjI)
qed

lemma world_down_simps:
  "now world_down = 2000" "redis_faults world_down = [True]"
  "kv world_down = kv world_alice"
  by (simp_all add: world_down_def world_alice_def world0_def)

text \<open>
  C10, witness: with the store down, alice (whose record is in the store) is reported
  offline, the count is 0 and the free video lock is not granted. On the flaky store the
  lock is acquired, the read inside the critical section fails, \<^verbatim>\<open>withLock\<close> throws that
  error and the lock is gone afterwards.
\<close>

theorem store_errors_fail_closed_witness:
  "next_redis_fault world_down
   \<and> lookup world_down (USER_ONLINE @ ''alice'') \<noteq> None
   \<and> fst (isUserOnline ''alice'' world_down) = Inr False
   \<and> fst (getUserStatus ''alice'' world_down) = Inr OFFLINE
   \<and> matching_keys USER_ONLINE world_down = [USER_ONLINE @ ''alice'']
   \<and> fst (getOnlineUsersCount world_down) = Inr 0
   \<and> lookup world_down lock_video = None
   \<and> fst (acquireLock lock_video 5000 world_down) = Inr False
   \<and> kv (snd (acquireLock lock_video 5000 world_down)) = kv world_down
   \<and> fst (isUserOnline ''alice'' world_alice) = Inr True
   \<and> fst (acquireLock lock_video 5000 world_flaky) = Inr True
   \<and> fst (read_queue (snd (acquireLock lock_video 5000 world_flaky))) = Inl StoreError
   \<and> \<not> next_redis_fault (snd (read_queue (snd (acquireLock lock_video 5000 world_flaky))))
   \<and> fst (withLock lock_video read_queue 5000 world_flaky) = Inl StoreError
   \<and> lookup (snd (withLock lock_video read_queue 5000 world_flaky)) lock_video = None"
proof -
  have h: "next_redis_fault world_down"
    by (simp add: next_redis_fault_def world_down_simps)
  have r: "lookup world_down (USER_ONLINE @ ''alice'') \<noteq> None"
    by (simp add: lookup_def world_down_simps world_alice_simps live_def)
  have m: "matching_keys USER_ONLINE world_down = [USER_ONLINE @ ''alice'']"
    by (simp add: matching_keys_def lookup_def world_down_simps world_alice_simps live_def
        USER_ONLINE_def SOCKET_USER_def)
  have l: "lookup world_down lock_video = None"
    by (simp add: lookup_def world_down_simps world_alice_simps lock_video_def
        LOCK_MATCHING_def USER_ONLINE_def SOCKET_USER_def)
  have on: "fst (isUserOnline ''alice'' world_alice) = Inr True"
    by (simp add: isUserOnline_eq getUserPresence_eq next_redis_fault_def lookup_def live_def
        world_alice_simps)
  have a: "fst (acquireLock lock_video 5000 world_flaky) = Inr True"
    by (simp add: acquireLock_eq next_redis_fault_def world_flaky_def world0_def lookup_def)
  have q: "fst (read_queue (snd (acquireLock lock_video 5000 world_flaky))) = Inl StoreError"
    by (simp add: read_queue_def redis_get_def acquireLock_eq next_redis_fault_def
        world_flaky_def world0_def lookup_def served_def)
  have n: "\<not> next_redis_fault (snd (read_queue (snd (acquireLock lock_video 5000 world_flaky))))"
    by (simp add: read_queue_def redis_get_def acquireLock_eq next_redis_fault_def
        world_flaky_def world0_def lookup_def served_def)
  note t = store_errors_fail_closed [of world_down "''alice''" lock_video 5000]
  from t h have c: "fst (isUserOnline ''alice'' world_down) = Inr False
      \<and> fst (getUserStatus ''alice'' world_down) = Inr OFFLINE
      \<and> fst (getOnlineUsersCount world_down) = Inr 0
      \<and> fst (acquireLock lock_video 5000 world_down) = Inr False
      \<and> kv (snd (acquireLock lock_video 5000 world_down)) = kv world_down"
    by blast
  note t2 = store_errors_fail_closed
    [where w = world_flaky and k = lock_video and ttl = 5000 and cb = read_queue]
  from t2 a q have d: "fst (withLock lock_video read_queue 5000 world_flaky) = Inl StoreError"
    by blast
  from t2 a n have e: "lookup (snd (withLock lock_video read_queue 5000 world_flaky))
      lock_video = None"
    by blast
  show ?thesis using h r m l on a q n c d e by simp
qed

text \<open>
  C10 as stated fails on \<^verbatim>\<open>withLock\<close>: the lock is acquired, the store fails the read
  inside the critical section, and \<^verbatim>\<open>withLock\<close> rejects with that store error; likewise
  for a callback that throws an error of its own. It fails on
  \<^verbatim>\<open>subscribeToPresenceEvents\<close> as well, which throws at
  \<^verbatim>\<open>REDIS_CHANNELS.USER_ONLINE\<close> whenever it is called.
\<close>

theorem withLock_propagates_counterexample:
  "fst (acquireLock lock_video 5000 world_flaky) = Inr True
   \<and> fst (read_queue (snd (acquireLock lock_video 5000 world_flaky))) = Inl StoreError
   \<and> fst (withLock lock_video read_queue 5000 world_flaky) = Inl StoreError
   \<and> isl (fst (withLock lock_video read_queue 5000 world_flaky))
   \<and> fst (withLock lock_video bump_then_throw 5000 world0) = Inl (CallbackError ''boom'')
   \<and> fst (subscribeToPresenceEvents ignore_message ignore_message world0) = Inl TypeError
   \<and> isl (fst (subscribeToPresenceEvents ignore_message ignore_message world0))"
proof -
  have a: "acquireLock lock_video 5000 world_flaky
      = (Inr True, world0\<lparr>redis_faults := [True],
           kv := [(lock_video, \<lparr>val = Raw ''1'', expires_at = Some 6000\<rparr>)]\<rparr>)"
    by (simp add: acquireLock_eq next_redis_fault_def world_flaky_def world0_def lookup_def
        served_def)
  have q: "fst (read_queue (world0\<lparr>redis_faults := [True],
           kv := [(lock_video, \<lparr>val = Raw ''1'', expires_at = Some 6000\<rparr>)]\<rparr>)) = Inl StoreError"
    by (simp add: read_queue_def redis_get_def next_redis_fault_def)
  have b: "\<And>w. fst (bump_then_throw w) = Inl (CallbackError ''boom'')"
    by (simp add: bump_then_throw_def bump_gauge_def bind_io_def throw_def)
  show ?thesis
    by (simp add: withLock_eq a q b acq0 subscribeToPresenceEvents_throws)
qed

end
